theory Spec2Isabelle
  imports Main "HOL-Library.Char_ord" "HOL-Library.List_Lexorder"
begin

section \<open>Python strings\<close>

text \<open>
  A Python \<open>str\<close> is modelled as a \<open>string\<close>: a list of characters, each standing for
  one code point below 256. Comparison of strings is lexicographic by code point, as in
  Python. The functions below are the \<open>str\<close> methods that \<open>summerbreeze.py\<close> calls.
\<close>

definition is_space :: "char \<Rightarrow> bool" where
  \<comment> \<open>\<open>str.isspace\<close> on the code points below 256: TAB, LF, VT, FF, CR, FS, GS, RS, US,
      space, NEL and no-break space.\<close>
  "is_space c =
     (let n = (of_char c :: nat)
      in (9 \<le> n \<and> n \<le> 13) \<or> (28 \<le> n \<and> n \<le> 32) \<or> n = 133 \<or> n = 160)"

definition lstrip :: "string \<Rightarrow> string" where
  "lstrip s = dropWhile is_space s"

definition rstrip :: "string \<Rightarrow> string" where
  "rstrip s = rev (dropWhile is_space (rev s))"

definition strip :: "string \<Rightarrow> string" where
  \<comment> \<open>\<open>s.strip()\<close>\<close>
  "strip s = rstrip (lstrip s)"

definition rstrip_chr :: "char \<Rightarrow> string \<Rightarrow> string" where
  \<comment> \<open>\<open>s.rstrip(c)\<close> for a one-character argument\<close>
  "rstrip_chr c s = rev (dropWhile (\<lambda>x. x = c) (rev s))"

definition lower_chr :: "char \<Rightarrow> char" where
  \<comment> \<open>\<open>str.lower\<close> on one code point below 256: A to Z, and the capital letters of the
      Latin-1 block (192 to 222 without the multiplication sign 215), move up by 32.\<close>
  "lower_chr c =
     (let n = (of_char c :: nat)
      in if (65 \<le> n \<and> n \<le> 90) \<or> (192 \<le> n \<and> n \<le> 222 \<and> n \<noteq> 215)
         then char_of (n + 32) else c)"

definition lower :: "string \<Rightarrow> string" where
  \<comment> \<open>\<open>s.lower()\<close>\<close>
  "lower s = map lower_chr s"

definition startswith :: "string \<Rightarrow> string \<Rightarrow> bool" where
  \<comment> \<open>\<open>s.startswith(p)\<close>\<close>
  "startswith s p = (take (length p) s = p)"

definition endswith :: "string \<Rightarrow> string \<Rightarrow> bool" where
  \<comment> \<open>\<open>s.endswith(p)\<close>\<close>
  "endswith s p = (length p \<le> length s \<and> drop (length s - length p) s = p)"

definition drop_last :: "nat \<Rightarrow> string \<Rightarrow> string" where
  \<comment> \<open>\<open>s[:-n]\<close> for \<open>n > 0\<close>: the slice keeps the first \<open>len(s) - n\<close> characters, none
      when the string is shorter than \<open>n\<close>.\<close>
  "drop_last n s = take (length s - n) s"

section \<open>ROM names\<close>

definition ROM_EXTENSIONS :: "string list" where
  \<comment> \<open>The source has a set literal; the list fixes one iteration order of it.\<close>
  "ROM_EXTENSIONS = [''.z64'', ''.n64'', ''.v64'']"

fun strip_first_ext :: "string list \<Rightarrow> string \<Rightarrow> string" where
  \<comment> \<open>The loop of \<open>normalize_rom_name\<close>: the first extension, in iteration order, that
      the lowercased name ends with is cut off, and the loop breaks.\<close>
  "strip_first_ext [] name = name"
| "strip_first_ext (ext # exts) name =
     (if endswith (lower name) ext then drop_last (length ext) name
      else strip_first_ext exts name)"

definition normalize_rom_name_in :: "string list \<Rightarrow> string \<Rightarrow> string" where
  \<comment> \<open>\<open>normalize_rom_name\<close> with the iteration order of the extension set made explicit\<close>
  "normalize_rom_name_in exts name = strip (lower (strip_first_ext exts name))"

definition normalize_rom_name :: "string \<Rightarrow> string" where
  "normalize_rom_name name = normalize_rom_name_in ROM_EXTENSIONS name"

section \<open>The world of a command\<close>

text \<open>
  Exceptions are values. \<open>subprocess.run\<close> either completes with an exit code and the
  two captured streams, or raises; \<open>input\<close> either returns a line, or raises
  \<open>KeyboardInterrupt\<close> or (at the end of the input) \<open>EOFError\<close>.
\<close>

datatype exn =
  FileNotFoundError | PermissionError | OSError | UnicodeDecodeError | ValueError
  | EOFError | KeyboardInterrupt | RecursionError | UnboundLocalError | IndexError

datatype outcome = Completed int string string | Raised exn

datatype input_event = Line string | Interrupt

datatype fsnode = File string | Dir string "fsnode list"

type_synonym path = "string list"
  \<comment> \<open>a \<open>Path\<close> below \<open>SCRIPT_DIR\<close>, as the list of its components\<close>

record env =
  SCRIPT_DIR :: string
  SC64_DEPLOYER :: string
    \<comment> \<open>the text of the path of the deployer executable\<close>
  subprocess_run :: "string list list \<Rightarrow> string list \<Rightarrow> outcome"
    \<comment> \<open>what running the deployer with these arguments does, after these earlier runs\<close>
  roms_tree :: "fsnode list option"
    \<comment> \<open>the entries of \<open>LOCAL_ROMS_DIR\<close>, in the order the system lists them; \<open>None\<close>
        when nothing exists at that path\<close>
  size_mb :: "path \<Rightarrow> string"
    \<comment> \<open>the text of \<open>stat().st_size / (1024 * 1024)\<close> with one decimal\<close>
  now :: "nat \<Rightarrow> string"
    \<comment> \<open>the text of the \<open>n\<close>-th reading of the clock\<close>
  recursion_limit :: nat
    \<comment> \<open>how deep \<open>get_all_sd_roms\<close> may nest before Python raises \<open>RecursionError\<close>\<close>

record world =
  calls :: "string list list"
    \<comment> \<open>the argument lists the deployer was run with, oldest first\<close>
  out :: "string list"
    \<comment> \<open>what was written to the terminal, one entry per \<open>print\<close> or prompt\<close>
  inp :: "input_event list"
    \<comment> \<open>what the user is going to enter\<close>
  clock :: nat
    \<comment> \<open>how often the clock was read\<close>
  menu_versions :: "fsnode list option"
    \<comment> \<open>the entries of \<open>MENU_VERSIONS_DIR\<close>; \<open>None\<close> while the directory is missing\<close>

type_synonym 'a prog = "world \<Rightarrow> (exn + 'a) \<times> world"

definition ret :: "'a \<Rightarrow> 'a prog" where
  "ret x w = (Inr x, w)"

definition throw :: "exn \<Rightarrow> 'a prog" where
  "throw e w = (Inl e, w)"

definition bind :: "'a prog \<Rightarrow> ('a \<Rightarrow> 'b prog) \<Rightarrow> 'b prog" where
  "bind m f w = (case m w of (Inl e, w') \<Rightarrow> (Inl e, w') | (Inr x, w') \<Rightarrow> f x w')"

definition seq :: "unit prog \<Rightarrow> 'b prog \<Rightarrow> 'b prog" where
  "seq m k = bind m (\<lambda>_. k)"

definition print :: "string \<Rightarrow> unit prog" where
  "print s w = (Inr (), w\<lparr>out := out w @ [s]\<rparr>)"

fun prints :: "string list \<Rightarrow> unit prog" where
  "prints [] = ret ()"
| "prints (s # ss) = seq (print s) (prints ss)"

definition input :: "string \<Rightarrow> string prog" where
  \<comment> \<open>\<open>input(prompt)\<close>: the prompt is written, then a line is read\<close>
  "input prompt w =
     (let w' = w\<lparr>out := out w @ [prompt]\<rparr>
      in case inp w of
           [] \<Rightarrow> (Inl EOFError, w')
         | Line s # rest \<Rightarrow> (Inr s, w'\<lparr>inp := rest\<rparr>)
         | Interrupt # rest \<Rightarrow> (Inl KeyboardInterrupt, w'\<lparr>inp := rest\<rparr>))"

section \<open>The deployer invoker\<close>

definition run_sc64_command :: "env \<Rightarrow> string list \<Rightarrow> (int \<times> string \<times> string) prog" where
  \<comment> \<open>Every caller leaves \<open>capture_output\<close> at its default, \<open>True\<close>.\<close>
  "run_sc64_command E args w =
     (let w' = w\<lparr>calls := calls w @ [args]\<rparr>
      in case subprocess_run E (calls w) args of
           Completed returncode stdout stderr \<Rightarrow> (Inr (returncode, stdout, stderr), w')
         | Raised e \<Rightarrow>
             if e = FileNotFoundError
             then (Inr (- 1, [], ''Error: sc64deployer not found at '' @ SC64_DEPLOYER E), w')
             else (Inl e, w'))"

definition contains :: "string \<Rightarrow> string \<Rightarrow> bool" where
  \<comment> \<open>\<open>p in s\<close>\<close>
  "contains s p = (\<exists>i \<in> set [0..<Suc (length s)]. take (length p) (drop i s) = p
                      \<and> i + length p \<le> length s)"

definition check_device_connected :: "env \<Rightarrow> bool prog" where
  "check_device_connected E =
     bind (run_sc64_command E [''list''])
       (\<lambda>(code, stdout, stderr). ret (code = 0 \<and> contains stdout ''Found devices:''))"

definition is_sd_card_accessible :: "env \<Rightarrow> bool prog" where
  "is_sd_card_accessible E =
     bind (run_sc64_command E [''sd'', ''ls''])
       (\<lambda>(code, stdout, stderr). ret (code = 0 \<and> CHR ''|'' \<in> set stdout))"

section \<open>The listing parser\<close>

record entry =
  e_name :: string
  e_type :: string
  e_size :: string
  e_path :: string

fun split_on :: "char \<Rightarrow> string \<Rightarrow> string list" where
  \<comment> \<open>\<open>s.split(c)\<close> for a one-character separator\<close>
  "split_on c [] = [[]]"
| "split_on c (x # xs) =
     (if x = c then [] # split_on c xs
      else case split_on c xs of
             [] \<Rightarrow> [[x]]
           | y # ys \<Rightarrow> (x # y) # ys)"

definition split_once :: "char \<Rightarrow> string \<Rightarrow> string list" where
  \<comment> \<open>\<open>s.split(c, 1)\<close>: at the first occurrence only\<close>
  "split_once c s =
     (if c \<in> set s then [takeWhile (\<lambda>x. x \<noteq> c) s, tl (dropWhile (\<lambda>x. x \<noteq> c) s)]
      else [s])"

fun words_from :: "string \<Rightarrow> string \<Rightarrow> string list" where
  \<comment> \<open>the words of the rest of a string, given the characters of the word being read\<close>
  "words_from cur [] = (if cur = [] then [] else [cur])"
| "words_from cur (x # xs) =
     (if is_space x then (if cur = [] then words_from [] xs else cur # words_from [] xs)
      else words_from (cur @ [x]) xs)"

definition split_ws :: "string \<Rightarrow> string list" where
  \<comment> \<open>\<open>s.split()\<close>: the maximal runs of characters that are not whitespace\<close>
  "split_ws s = words_from [] s"

fun listing_loop :: "string list \<Rightarrow> entry list" where
  \<comment> \<open>the \<open>for line in ...\<close> loop of \<open>list_sd_card_files\<close>; the result is \<open>files\<close>\<close>
  "listing_loop [] = []"
| "listing_loop (line # rest) =
     (if strip line = [] then listing_loop rest
      else if CHR ''|'' \<notin> set line then listing_loop rest
      else
        let parts = split_once CHR ''|'' line
        in if length parts \<noteq> 2 then listing_loop rest
           else
             let meta = strip (parts ! 0);
                 name = strip (parts ! 1);
                 file_type = (if startswith meta ''d'' then ''dir'' else ''file'');
                 meta_parts = split_ws meta;
                 size_str = (if length meta_parts \<ge> 2 then meta_parts ! 1 else '''')
             in \<lparr>e_name = name, e_type = file_type, e_size = size_str,
                  e_path = (if startswith name ''/'' then name else ''/'' @ name)\<rparr>
                # listing_loop rest)"

definition parse_listing :: "string \<Rightarrow> entry list" where
  \<comment> \<open>what \<open>list_sd_card_files\<close> makes of the captured output when the exit code is 0\<close>
  "parse_listing stdout = listing_loop (split_on CHR 0x0A (strip stdout))"

definition list_sd_card_files :: "env \<Rightarrow> string option \<Rightarrow> entry list prog" where
  "list_sd_card_files E path =
     bind (if path = None \<or> path = Some ''/'' then run_sc64_command E [''sd'', ''ls'']
           else run_sc64_command E [''sd'', ''ls'', the path])
       (\<lambda>(code, stdout, stderr). if code \<noteq> 0 then ret [] else ret (parse_listing stdout))"

text \<open>
  The listing parser as the specification words it: one record per line that has a pipe,
  the line cut at its first pipe.
\<close>

definition spec_record_of_line :: "string \<Rightarrow> entry" where
  "spec_record_of_line line =
     (let meta = strip (takeWhile (\<lambda>x. x \<noteq> CHR ''|'') line);
          name = strip (tl (dropWhile (\<lambda>x. x \<noteq> CHR ''|'') line))
      in \<lparr>e_name = name,
           e_type = (case meta of c # _ \<Rightarrow> (if c = CHR ''d'' then ''dir'' else ''file'')
                     | [] \<Rightarrow> ''file''),
           e_size = (case split_ws meta of _ # tok # _ \<Rightarrow> tok | _ \<Rightarrow> ''''),
           e_path = (case name of c # _ \<Rightarrow> (if c = CHR ''/'' then name else CHR ''/'' # name)
                     | [] \<Rightarrow> ''/'')\<rparr>)"

definition spec_parse_listing :: "string \<Rightarrow> entry list" where
  "spec_parse_listing text =
     map spec_record_of_line (filter (\<lambda>line. CHR ''|'' \<in> set line) (split_on CHR 0x0A text))"

section \<open>Numbers as text\<close>

definition is_digit :: "char \<Rightarrow> bool" where
  "is_digit c = (let n = (of_char c :: nat) in 48 \<le> n \<and> n \<le> 57)"

definition digit_val :: "char \<Rightarrow> nat" where
  "digit_val c = of_char c - 48"

fun digits_value :: "nat \<Rightarrow> string \<Rightarrow> nat" where
  \<comment> \<open>the number a run of digits and underscores denotes, after the digits read so far\<close>
  "digits_value acc [] = acc"
| "digits_value acc (c # cs) =
     (if c = CHR ''_'' then digits_value acc cs else digits_value (10 * acc + digit_val c) cs)"

fun no_double_underscore :: "string \<Rightarrow> bool" where
  "no_double_underscore (a # b # cs) =
     (\<not> (a = CHR ''_'' \<and> b = CHR ''_'') \<and> no_double_underscore (b # cs))"
| "no_double_underscore cs = True"

definition int_literal_ok :: "string \<Rightarrow> bool" where
  \<comment> \<open>the digits of a decimal literal as \<open>int\<close> reads it: single underscores are allowed
      between digits only\<close>
  "int_literal_ok body =
     (body \<noteq> [] \<and> is_digit (hd body) \<and> is_digit (last body)
      \<and> list_all (\<lambda>c. is_digit c \<or> c = CHR ''_'') body \<and> no_double_underscore body)"

definition int_max_str_digits :: nat where
  \<comment> \<open>\<open>sys.int_info.default_max_str_digits\<close>, which the program leaves as it is\<close>
  "int_max_str_digits = 4300"

definition py_int :: "string \<Rightarrow> int option" where
  \<comment> \<open>\<open>int(s)\<close>; \<open>None\<close> stands for \<open>ValueError\<close>, which a literal of more than
      \<open>int_max_str_digits\<close> digits raises too (signs, underscores and the blanks around
      it are not counted)\<close>
  "py_int s =
     (let t = strip s;
          neg = (t \<noteq> [] \<and> hd t = CHR ''-'');
          body = (if t \<noteq> [] \<and> (hd t = CHR ''-'' \<or> hd t = CHR ''+'') then tl t else t)
      in if int_literal_ok body \<and> length (filter is_digit body) \<le> int_max_str_digits
         then Some (if neg then - int (digits_value 0 body) else int (digits_value 0 body))
         else None)"

fun str_nat :: "nat \<Rightarrow> string" where
  "str_nat n = (if n < 10 then [char_of (48 + n)] else str_nat (n div 10) @ [char_of (48 + n mod 10)])"

definition str_int :: "int \<Rightarrow> string" where
  \<comment> \<open>\<open>str(i)\<close>, which is also what \<open>{i}\<close> puts into an f-string\<close>
  "str_int i = (if i < 0 then ''-'' @ str_nat (nat (- i)) else str_nat (nat i))"

definition pad2 :: "string \<Rightarrow> string" where
  \<comment> \<open>the format \<open>{i:2}\<close> of a number: right-aligned in two columns\<close>
  "pad2 s = replicate (2 - length s) CHR '' '' @ s"

section \<open>Prompts\<close>

definition print_header :: "string \<Rightarrow> unit prog" where
  "print_header text =
     prints [[], replicate 60 CHR ''='', ''  '' @ text, replicate 60 CHR ''='']"

function get_choice :: "int \<Rightarrow> string \<Rightarrow> int prog" where
  "get_choice max_val prompt w =
     (case input (prompt @ '' (1-'' @ str_int max_val @ '', or 0 to cancel): '') w of
        (Inl e, w1) \<Rightarrow>
          if e = KeyboardInterrupt then (Inr 0, w1\<lparr>out := out w1 @ [[]]\<rparr>)
          else (Inl e, w1)
      | (Inr line, w1) \<Rightarrow>
          let choice = strip line
          in if choice = ''0'' then (Inr 0, w1)
             else case py_int choice of
                    None \<Rightarrow>
                      get_choice max_val prompt
                        (w1\<lparr>out := out w1 @ [''Please enter a valid number'']\<rparr>)
                  | Some val \<Rightarrow>
                      if 1 \<le> val \<and> val \<le> max_val then (Inr val, w1)
                      else get_choice max_val prompt
                             (w1\<lparr>out := out w1 @ [''Please enter a number between 1 and ''
                                                     @ str_int max_val]\<rparr>))"
  by pat_completeness auto
termination
proof (relation "measure (\<lambda>(max_val, prompt, w). length (inp w))")
  show "wf (measure (\<lambda>(max_val, prompt, w). length (inp w)))" by simp
next
  fix max_val :: int and prompt :: string and w w1 :: world and x line choice
  assume "(x, w1) = input (prompt @ '' (1-'' @ str_int max_val @ '', or 0 to cancel): '') w"
    and "x = Inr line"
  then have "length (inp w1) < length (inp w)"
    by (auto simp: input_def Let_def split: list.splits input_event.splits)
  then show "((max_val, prompt, w1\<lparr>out := out w1 @ [''Please enter a valid number'']\<rparr>),
               max_val, prompt, w) \<in> measure (\<lambda>(max_val, prompt, w). length (inp w))"
    by simp
next
  fix max_val :: int and prompt :: string and w w1 :: world and x line choice
  assume "(x, w1) = input (prompt @ '' (1-'' @ str_int max_val @ '', or 0 to cancel): '') w"
    and "x = Inr line"
  then have "length (inp w1) < length (inp w)"
    by (auto simp: input_def Let_def split: list.splits input_event.splits)
  then show "((max_val, prompt,
                w1\<lparr>out := out w1 @ [''Please enter a number between 1 and '' @ str_int max_val]\<rparr>),
               max_val, prompt, w) \<in> measure (\<lambda>(max_val, prompt, w). length (inp w))"
    by simp
qed

fun choices_loop :: "int \<Rightarrow> string list \<Rightarrow> int list \<Rightarrow> int list prog" where
  \<comment> \<open>the \<open>for part in raw.split(",")\<close> loop of \<open>get_multi_choice\<close>; the result is
      \<open>choices\<close>\<close>
  "choices_loop max_val [] choices = ret choices"
| "choices_loop max_val (part # parts) choices =
     (case py_int (strip part) of
        None \<Rightarrow> throw ValueError
      | Some val \<Rightarrow>
          if 1 \<le> val \<and> val \<le> max_val then choices_loop max_val parts (choices @ [val])
          else seq (print (''Skipping invalid choice: '' @ str_int val))
                 (choices_loop max_val parts choices))"

function get_multi_choice :: "int \<Rightarrow> string \<Rightarrow> int list prog" where
  "get_multi_choice max_val prompt w =
     (case input (prompt @ '' (e.g. 1,3,5 or 'all', or 0 to cancel): '') w of
        (Inl e, w1) \<Rightarrow>
          if e = KeyboardInterrupt then (Inr [], w1\<lparr>out := out w1 @ [[]]\<rparr>)
          else (Inl e, w1)
      | (Inr line, w1) \<Rightarrow>
          let raw = lower (strip line)
          in if raw = ''0'' then (Inr [], w1)
             else if raw = ''all'' then (Inr [1..max_val], w1)
             else case choices_loop max_val (split_on CHR '','' raw) [] w1 of
                    (Inl e, w2) \<Rightarrow>
                      if e = ValueError
                      then get_multi_choice max_val prompt
                             (w2\<lparr>out := out w2
                                   @ [''Please enter valid numbers separated by commas'']\<rparr>)
                      else (Inl e, w2)
                  | (Inr choices, w2) \<Rightarrow> (Inr (sorted_list_of_set (set choices)), w2))"
  by pat_completeness auto
termination
proof (relation "measure (\<lambda>(max_val, prompt, w). length (inp w))")
  show "wf (measure (\<lambda>(max_val, prompt, w). length (inp w)))" by simp
next
  fix max_val :: int and prompt :: string and w w1 w2 :: world
    and x line raw and y :: "exn + int list" and e
  assume i: "(x, w1) = input (prompt @ '' (e.g. 1,3,5 or 'all', or 0 to cancel): '') w"
    and "x = Inr line"
    and c: "(y, w2) = choices_loop max_val (split_on CHR '','' raw) [] w1"
  have keep: "inp (snd (choices_loop m ps cs v)) = inp v" for m ps cs v
    by (induction m ps cs arbitrary: v rule: choices_loop.induct)
      (auto simp: ret_def throw_def seq_def bind_def print_def split: option.splits)
  from i \<open>x = Inr line\<close> have "length (inp w1) < length (inp w)"
    by (auto simp: input_def Let_def split: list.splits input_event.splits)
  moreover from c keep [of max_val "split_on CHR '','' raw" "[]" w1] have "inp w2 = inp w1"
    by (metis snd_conv)
  ultimately show
    "((max_val, prompt,
        w2\<lparr>out := out w2 @ [''Please enter valid numbers separated by commas'']\<rparr>),
       max_val, prompt, w) \<in> measure (\<lambda>(max_val, prompt, w). length (inp w))"
    by simp
qed

section \<open>Local files\<close>

text \<open>
  A local \<open>Path\<close> is the list of its components below \<open>SCRIPT_DIR\<close>; its text joins them
  with slashes. A directory is the list of its entries, in the order the system lists
  them. \<open>rglob("*")\<close> visits the directory, then each directory below it, depth first,
  and yields all the entries of a directory when it visits it. After the stable sort
  the order of the walk shows between files whose lowercased names are equal.
\<close>

definition path_name :: "path \<Rightarrow> string" where
  \<comment> \<open>\<open>p.name\<close>\<close>
  "path_name p = (if p = [] then [] else last p)"

definition path_str :: "env \<Rightarrow> path \<Rightarrow> string" where
  \<comment> \<open>\<open>str(p)\<close>\<close>
  "path_str E p = SCRIPT_DIR E @ concat (map (\<lambda>c. ''/'' @ c) p)"

definition suffix :: "string \<Rightarrow> string" where
  \<comment> \<open>\<open>p.suffix\<close>, from the name of \<open>p\<close>: what starts at the last dot, unless that dot is
      the first or the last character of the name\<close>
  "suffix name =
     (if CHR ''.'' \<notin> set name then []
      else
        let i = length name - Suc (length (takeWhile (\<lambda>c. c \<noteq> CHR ''.'') (rev name)))
        in if 0 < i \<and> i < length name - 1 then drop i name else [])"

fun entry_of :: "path \<Rightarrow> fsnode \<Rightarrow> path \<times> bool" where
  \<comment> \<open>an entry of the directory \<open>dir\<close> as a path, with its \<open>is_file()\<close>\<close>
  "entry_of dir (File name) = (dir @ [name], True)"
| "entry_of dir (Dir name entries) = (dir @ [name], False)"

fun rglob_below :: "path \<Rightarrow> fsnode \<Rightarrow> (path \<times> bool) list"
  and rglob_dirs :: "path \<Rightarrow> fsnode list \<Rightarrow> (path \<times> bool) list" where
  \<comment> \<open>what the walk yields inside an entry of \<open>dir\<close>, and inside each of some entries
      in turn\<close>
  "rglob_below dir (File name) = []"
| "rglob_below dir (Dir name entries) =
     map (entry_of (dir @ [name])) entries @ rglob_dirs (dir @ [name]) entries"
| "rglob_dirs dir [] = []"
| "rglob_dirs dir (node # nodes) = rglob_below dir node @ rglob_dirs dir nodes"

definition rglob :: "path \<Rightarrow> fsnode list \<Rightarrow> (path \<times> bool) list" where
  \<comment> \<open>what \<open>dir.rglob("*")\<close> yields, each path with its \<open>is_file()\<close>\<close>
  "rglob dir entries = map (entry_of dir) entries @ rglob_dirs dir entries"

definition is_rom_file :: "path \<times> bool \<Rightarrow> bool" where
  \<comment> \<open>\<open>file.is_file() and file.suffix.lower() in ROM_EXTENSIONS\<close>\<close>
  "is_rom_file f = (snd f \<and> lower (suffix (path_name (fst f))) \<in> set ROM_EXTENSIONS)"

definition LOCAL_ROMS_DIR :: path where
  "LOCAL_ROMS_DIR = [''roms'']"

definition MENU_VERSIONS_DIR :: path where
  "MENU_VERSIONS_DIR = [''menu_versions'']"

definition SD_MENU_PATH :: string where
  "SD_MENU_PATH = ''/sc64menu.n64''"

definition list_local_roms :: "env \<Rightarrow> path list" where
  "list_local_roms E =
     (case roms_tree E of
        None \<Rightarrow> []
      | Some entries \<Rightarrow>
          sort_key (\<lambda>x. lower (path_name x))
            (map fst (filter is_rom_file (rglob LOCAL_ROMS_DIR entries))))"

text \<open>
  The files of a directory tree as the specification speaks of them: a relative path
  names a file when its last component is a file in the directory that the components
  before it lead to.
\<close>

fun file_at :: "fsnode list \<Rightarrow> path \<Rightarrow> bool" where
  "file_at entries [] = False"
| "file_at entries [name] = (File name \<in> set entries)"
| "file_at entries (d # rest) = (\<exists>sub \<in> set entries. case sub of
                                     Dir name below \<Rightarrow> name = d \<and> file_at below rest
                                   | File name \<Rightarrow> False)"

section \<open>ROMs on the cart\<close>

definition is_rom_name :: "string \<Rightarrow> bool" where
  \<comment> \<open>\<open>any(name.lower().endswith(ext) for ext in ROM_EXTENSIONS)\<close>\<close>
  "is_rom_name name = (\<exists>ext \<in> set ROM_EXTENSIONS. endswith (lower name) ext)"

text \<open>
  \<open>get_all_sd_roms\<close> calls itself for every directory that a listing shows, whatever the
  deployer answers; Python ends a nesting that goes too deep with \<open>RecursionError\<close>. The
  first argument after the environment is the number of nested calls still allowed. The
  list \<open>found\<close>, which the source extends in place, is passed on and returned.
\<close>

fun get_all_sd_roms :: "env \<Rightarrow> nat \<Rightarrow> string option \<Rightarrow> entry list \<Rightarrow> entry list prog"
  and sd_roms_loop :: "env \<Rightarrow> nat \<Rightarrow> entry list \<Rightarrow> entry list \<Rightarrow> entry list prog" where
  "get_all_sd_roms E 0 path found w = (Inl RecursionError, w)"
| "get_all_sd_roms E (Suc depth) path found w =
     (case list_sd_card_files E path w of
        (Inl e, w1) \<Rightarrow> (Inl e, w1)
      | (Inr files, w1) \<Rightarrow> sd_roms_loop E depth files found w1)"
| "sd_roms_loop E depth [] found w = (Inr found, w)"
| "sd_roms_loop E depth (f # files) found w =
     (if e_type f = ''dir''
      then case get_all_sd_roms E depth (Some (e_path f)) found w of
             (Inl e, w1) \<Rightarrow> (Inl e, w1)
           | (Inr found1, w1) \<Rightarrow> sd_roms_loop E depth files found1 w1
      else if is_rom_name (e_name f) then sd_roms_loop E depth files (found @ [f]) w
      else sd_roms_loop E depth files found w)"

definition upload_rom_to_sd :: "env \<Rightarrow> path \<Rightarrow> string \<Rightarrow> bool prog" where
  "upload_rom_to_sd E local_path sd_path =
     (let dest = rstrip_chr CHR ''/'' sd_path @ ''/'' @ path_name local_path
      in seq (prints [''Uploading: '' @ path_name local_path, ''      To: '' @ dest])
           (bind (run_sc64_command E [''sd'', ''upload'', path_str E local_path, dest])
              (\<lambda>(code, stdout, stderr).
                 if code = 0 then seq (print ''  Upload complete!'') (ret True)
                 else seq (print (''  Upload failed: '' @ stderr)) (ret False))))"

section \<open>Comparing and uploading\<close>

definition rom_line :: "env \<Rightarrow> nat \<times> path \<Rightarrow> string" where
  \<comment> \<open>\<open>f"  [{i:2}] {rom.name} ({size_mb:.1f} MB)"\<close>\<close>
  "rom_line E x =
     ''  ['' @ pad2 (str_nat (fst x)) @ ''] '' @ path_name (snd x)
     @ '' ('' @ size_mb E (snd x) @ '' MB)''"

definition enumerate1 :: "'a list \<Rightarrow> (nat \<times> 'a) list" where
  \<comment> \<open>\<open>enumerate(xs, 1)\<close>\<close>
  "enumerate1 xs = zip [1..<Suc (length xs)] xs"

fun compare_loop :: "path list \<Rightarrow> string set \<Rightarrow> path list \<Rightarrow> path list \<Rightarrow> path list \<times> path list" where
  \<comment> \<open>the \<open>for rom in local_roms\<close> loop of \<open>cmd_compare\<close>; the result is
      \<open>(missing, on_cart)\<close>\<close>
  "compare_loop [] sd_rom_names missing on_cart = (missing, on_cart)"
| "compare_loop (rom # roms) sd_rom_names missing on_cart =
     (let normalized = normalize_rom_name (path_name rom)
      in if normalized \<notin> sd_rom_names
         then compare_loop roms sd_rom_names (missing @ [rom]) on_cart
         else compare_loop roms sd_rom_names missing (on_cart @ [rom]))"

definition cmd_compare :: "env \<Rightarrow> path list prog" where
  "cmd_compare E =
     seq (print_header ''Compare Local vs Cart'')
       (let local_roms = list_local_roms E
        in if local_roms = [] then seq (print ''No local ROMs found.'') (ret [])
           else
             bind (is_sd_card_accessible E) (\<lambda>accessible.
               if \<not> accessible
               then seq (prints
                      ([''SD card is not accessible - showing all local ROMs as 'missing on cart''
                        @ [CHR 0x27],
                        ''(Power on your N64 to enable SD card access for accurate comparison)'',
                        []]
                       @ map (rom_line E) (enumerate1 local_roms)))
                      (ret local_roms)
               else
                 seq (print ''Scanning SD card...'')
                   (bind (get_all_sd_roms E (recursion_limit E) None []) (\<lambda>sd_roms.
                      let sd_rom_names = set (map (\<lambda>r. normalize_rom_name (e_name r)) sd_roms);
                          result = compare_loop local_roms sd_rom_names [] [];
                          missing = fst result;
                          on_cart = snd result
                      in seq (print (''Found '' @ str_nat (length sd_roms) @ '' ROM(s) on cart''))
                           (seq (if on_cart \<noteq> []
                                 then prints
                                   ((CHR 0x0A # ''Already on cart ('' @ str_nat (length on_cart)
                                     @ ''):'')
                                    # map (\<lambda>rom. ''  [OK] '' @ path_name rom) on_cart)
                                 else ret ())
                              (if missing = []
                               then seq (print (CHR 0x0A
                                             # ''All local ROMs are already on the cart!''))
                                      (ret [])
                               else seq (prints
                                      ((CHR 0x0A # ''NOT on cart ('' @ str_nat (length missing)
                                        @ ''):'')
                                       # map (rom_line E) (enumerate1 missing)))
                                      (ret missing)))))))"

definition py_index :: "'a list \<Rightarrow> int \<Rightarrow> 'a option" where
  \<comment> \<open>\<open>xs[i]\<close>: a negative index counts from the end; \<open>None\<close> stands for \<open>IndexError\<close>\<close>
  "py_index xs i =
     (let n = int (length xs)
      in if 0 \<le> i \<and> i < n then Some (xs ! nat i)
         else if - n \<le> i \<and> i < 0 then Some (xs ! nat (n + i))
         else None)"

fun upload_loop :: "env \<Rightarrow> path list \<Rightarrow> string \<Rightarrow> int list \<Rightarrow> nat \<Rightarrow> nat prog" where
  \<comment> \<open>the \<open>for idx in choices\<close> loop of \<open>cmd_upload\<close>; the result is \<open>success_count\<close>\<close>
  "upload_loop E missing dest_path [] success_count = ret success_count"
| "upload_loop E missing dest_path (idx # rest) success_count =
     (case py_index missing (idx - 1) of
        None \<Rightarrow> throw IndexError
      | Some rom \<Rightarrow>
          bind (upload_rom_to_sd E rom dest_path) (\<lambda>ok.
            upload_loop E missing dest_path rest
              (if ok then success_count + 1 else success_count)))"

definition cmd_upload :: "env \<Rightarrow> unit prog" where
  "cmd_upload E =
     seq (print_header ''Upload ROMs to Cart'')
       (bind (check_device_connected E) (\<lambda>connected.
          if \<not> connected then print ''SC64 device not connected!''
          else
            bind (is_sd_card_accessible E) (\<lambda>accessible.
              if \<not> accessible
              then prints [''SD card is not accessible.'',
                           ''Power ON your N64 to enable SD card access.'']
              else
                bind (cmd_compare E) (\<lambda>missing.
                  if missing = [] then ret ()
                  else
                    seq (print (CHR 0x0A # ''Which ROMs would you like to upload?''))
                      (bind (get_multi_choice (int (length missing)) ''Select ROMs'') (\<lambda>choices.
                         if choices = [] then print ''Upload cancelled.''
                         else
                           seq (prints [CHR 0x0A # ''Upload destination on SD card:'',
                                        ''  [1] Root directory (/)'', ''  [2] Custom path''])
                             (bind (get_choice 2 ''Choose destination'') (\<lambda>dest_choice.
                                if dest_choice = 0 then print ''Upload cancelled.''
                                else
                                  bind (if dest_choice = 2
                                        then bind (input ''Enter SD card path (e.g. /roms): '')
                                               (\<lambda>line.
                                                  let dest_path = strip line
                                                  in ret (if startswith dest_path ''/''
                                                          then dest_path else ''/'' @ dest_path))
                                        else ret ''/'') (\<lambda>dest_path.
                                    seq (print [])
                                      (bind (upload_loop E missing dest_path choices 0)
                                         (\<lambda>success_count.
                                            print (CHR 0x0A # ''Done! Uploaded ''
                                                   @ str_nat success_count @ ''/''
                                                   @ str_nat (length choices)
                                                   @ '' ROM(s).''))))))))))))"

fun quick_upload_loop :: "env \<Rightarrow> path list \<Rightarrow> int list \<Rightarrow> unit prog" where
  \<comment> \<open>the \<open>for idx in choices\<close> loop of \<open>cmd_quick_upload\<close>\<close>
  "quick_upload_loop E local_roms [] = ret ()"
| "quick_upload_loop E local_roms (idx # rest) =
     (case py_index local_roms (idx - 1) of
        None \<Rightarrow> throw IndexError
      | Some rom \<Rightarrow>
          bind (upload_rom_to_sd E rom ''/'') (\<lambda>ok. quick_upload_loop E local_roms rest))"

definition cmd_quick_upload :: "env \<Rightarrow> unit prog" where
  "cmd_quick_upload E =
     seq (print_header ''Quick Upload'')
       (bind (check_device_connected E) (\<lambda>connected.
          if \<not> connected then print ''SC64 device not connected!''
          else
            bind (is_sd_card_accessible E) (\<lambda>accessible.
              if \<not> accessible
              then prints [''SD card is not accessible.'',
                           ''Power ON your N64 to enable SD card access.'']
              else
                let local_roms = list_local_roms E
                in if local_roms = [] then print ''No local ROMs found.''
                   else
                     seq (prints (''Select ROM(s) to upload:''
                                  # map (rom_line E) (enumerate1 local_roms)))
                       (bind (get_multi_choice (int (length local_roms)) ''Select ROMs'')
                          (\<lambda>choices.
                             if choices = [] then print ''Upload cancelled.''
                             else seq (print []) (quick_upload_loop E local_roms choices))))))"

section \<open>What a batch of uploads asks and reports\<close>

text \<open>
  The notions in which the properties of the upload loops are stated: the request an
  upload makes of the deployer, what the deployer invoker answers to a sequence of
  requests, and the lines an upload writes.
\<close>

definition upload_request :: "env \<Rightarrow> string \<Rightarrow> path \<Rightarrow> string list" where
  "upload_request E sd_path rom =
     [''sd'', ''upload'', path_str E rom, rstrip_chr CHR ''/'' sd_path @ ''/'' @ path_name rom]"

definition reply :: "env \<Rightarrow> string list list \<Rightarrow> string list \<Rightarrow> int \<times> string \<times> string" where
  \<comment> \<open>what \<open>run_sc64_command\<close> returns when the deployer completes or is missing\<close>
  "reply E history args =
     (case subprocess_run E history args of
        Completed returncode stdout stderr \<Rightarrow> (returncode, stdout, stderr)
      | Raised e \<Rightarrow> (- 1, [], ''Error: sc64deployer not found at '' @ SC64_DEPLOYER E))"

fun replies :: "env \<Rightarrow> string list list \<Rightarrow> string list list \<Rightarrow> (int \<times> string \<times> string) list" where
  \<comment> \<open>the answers to requests made one after the other\<close>
  "replies E history [] = []"
| "replies E history (args # rest) =
     reply E history args # replies E (history @ [args]) rest"

definition upload_report :: "string \<Rightarrow> path \<times> int \<times> string \<times> string \<Rightarrow> string list" where
  \<comment> \<open>the three lines written for one ROM, given the answer to its request\<close>
  "upload_report sd_path x =
     [''Uploading: '' @ path_name (fst x),
      ''      To: '' @ rstrip_chr CHR ''/'' sd_path @ ''/'' @ path_name (fst x),
      if fst (snd x) = 0 then ''  Upload complete!''
      else ''  Upload failed: '' @ snd (snd (snd x))]"

definition selected :: "'a list \<Rightarrow> int list \<Rightarrow> 'a list" where
  \<comment> \<open>the items that a list of numbers from 1 selects\<close>
  "selected xs choices = map (\<lambda>idx. xs ! nat (idx - 1)) choices"

section \<open>Updating the menu\<close>

text \<open>
  The directory of menu versions is part of the world, since the program creates it.
  What the deployer writes into it is not followed: within a command nothing lists the
  directory after a download.
\<close>

definition ensure_menu_versions_dir :: "env \<Rightarrow> unit prog" where
  "ensure_menu_versions_dir E w =
     (if menu_versions w = None
      then print (''Created directory: '' @ path_str E MENU_VERSIONS_DIR)
             (w\<lparr>menu_versions := Some []\<rparr>)
      else ret () w)"

definition list_local_menu_versions :: "env \<Rightarrow> path list prog" where
  "list_local_menu_versions E =
     seq (ensure_menu_versions_dir E)
       (\<lambda>w. case menu_versions w of
               None \<Rightarrow> throw FileNotFoundError w
             | Some entries \<Rightarrow>
                 ret (sort_key (\<lambda>x. lower (path_name x))
                        (map fst (filter is_rom_file (map (entry_of MENU_VERSIONS_DIR) entries))))
                   w)"

definition timestamp :: "env \<Rightarrow> string prog" where
  \<comment> \<open>\<open>datetime.now().strftime("%Y%m%d_%H%M%S")\<close>\<close>
  "timestamp E w = (Inr (now E (clock w)), w\<lparr>clock := Suc (clock w)\<rparr>)"

definition backup_menu_from_cart :: "env \<Rightarrow> bool prog" where
  "backup_menu_from_cart E =
     seq (ensure_menu_versions_dir E)
       (bind (timestamp E) (\<lambda>stamp.
          let backup_name = ''sc64menu_backup_'' @ stamp @ ''.n64'';
              backup_path = MENU_VERSIONS_DIR @ [backup_name]
          in seq (prints [''Backing up current menu from cart...'',
                          ''  From: '' @ SD_MENU_PATH,
                          ''    To: '' @ path_str E backup_path])
               (bind (run_sc64_command E
                        [''sd'', ''download'', SD_MENU_PATH, path_str E backup_path])
                  (\<lambda>(code, stdout, stderr).
                     if code = 0 then seq (print ''  Backup complete!'') (ret True)
                     else seq (print (''  Backup failed: '' @ stderr)) (ret False)))))"

definition upload_menu_to_cart :: "env \<Rightarrow> path \<Rightarrow> bool prog" where
  "upload_menu_to_cart E local_path =
     seq (prints [''Uploading new menu to cart...'',
                  ''  From: '' @ path_name local_path,
                  ''    To: '' @ SD_MENU_PATH])
       (bind (run_sc64_command E [''sd'', ''upload'', path_str E local_path, SD_MENU_PATH])
          (\<lambda>(code, stdout, stderr).
             if code = 0 then seq (print ''  Upload complete!'') (ret True)
             else seq (print (''  Upload failed: '' @ stderr)) (ret False)))"

fun join :: "string \<Rightarrow> string list \<Rightarrow> string" where
  \<comment> \<open>\<open>sep.join(xs)\<close>\<close>
  "join sep [] = []"
| "join sep [x] = x"
| "join sep (x # y # ys) = x @ sep @ join sep (y # ys)"

text \<open>
  The values that an iteration of the selection loop of \<open>cmd_update_menu\<close> computes from
  the list of versions and the current page.
\<close>

definition items_per_page :: nat where
  "items_per_page = 9"

definition total_pages :: "path list \<Rightarrow> nat" where
  "total_pages versions = (length versions + items_per_page - 1) div items_per_page"

definition page_items :: "path list \<Rightarrow> nat \<Rightarrow> path list" where
  \<comment> \<open>\<open>menu_versions[start_idx:end_idx]\<close>\<close>
  "page_items versions current_page =
     (let start_idx = current_page * items_per_page;
          end_idx = min (start_idx + items_per_page) (length versions)
      in take (end_idx - start_idx) (drop start_idx versions))"

definition nav_options :: "path list \<Rightarrow> nat \<Rightarrow> string list" where
  "nav_options versions current_page =
     (if current_page > 0 then [''P=Prev''] else [])
     @ (if int current_page < int (total_pages versions) - 1 then [''N=Next''] else [])
     @ [''0=Cancel'']"

definition page_lines :: "env \<Rightarrow> path list \<Rightarrow> nat \<Rightarrow> string list" where
  \<comment> \<open>what an iteration writes before it prompts\<close>
  "page_lines E versions current_page =
     (CHR 0x0A # ''Available menu versions in '' @ path_name MENU_VERSIONS_DIR @ ''/ (Page ''
        @ str_nat (current_page + 1) @ ''/'' @ str_nat (total_pages versions) @ ''):'')
     # map (rom_line E) (enumerate1 (page_items versions current_page))"

definition page_prompt :: "path list \<Rightarrow> nat \<Rightarrow> string" where
  "page_prompt versions current_page =
     ''Select menu (1-'' @ str_nat (length (page_items versions current_page)) @ '') [''
     @ join '', '' (nav_options versions current_page) @ '']: ''"

function select_menu :: "env \<Rightarrow> path list \<Rightarrow> nat \<Rightarrow> path option prog" where
  \<comment> \<open>the loop \<open>while selected_menu is None\<close>; the result \<open>None\<close> stands for the two
      \<open>return\<close>s that leave the command from inside the loop\<close>
  "select_menu E versions current_page w =
     (case input (page_prompt versions current_page)
             (w\<lparr>out := out w @ page_lines E versions current_page\<rparr>) of
        (Inl e, w1) \<Rightarrow>
          if e = KeyboardInterrupt
          then (Inr None, w1\<lparr>out := out w1 @ [[], ''Update cancelled.'']\<rparr>)
          else (Inl e, w1)
      | (Inr line, w1) \<Rightarrow>
          let user_input = lower (strip line)
          in if user_input = ''0''
             then (Inr None, w1\<lparr>out := out w1 @ [''Update cancelled.'']\<rparr>)
             else if user_input = ''p'' \<and> current_page > 0
             then select_menu E versions (current_page - 1) w1
             else if user_input = ''n'' \<and> int current_page < int (total_pages versions) - 1
             then select_menu E versions (current_page + 1) w1
             else case py_int user_input of
                    None \<Rightarrow>
                      select_menu E versions current_page
                        (w1\<lparr>out := out w1
                              @ [''Invalid input. Enter a number or navigation key.'']\<rparr>)
                  | Some choice \<Rightarrow>
                      if 1 \<le> choice \<and> choice \<le> int (length (page_items versions current_page))
                      then (Inr (Some (page_items versions current_page ! nat (choice - 1))), w1)
                      else select_menu E versions current_page
                             (w1\<lparr>out := out w1
                                   @ [''Please enter a number between 1 and ''
                                      @ str_nat (length (page_items versions current_page))]\<rparr>))"
  by pat_completeness auto
termination
proof (relation "measure (\<lambda>(E, versions, current_page, w). length (inp w))")
  have less: "length (inp w1) < length (inp w)"
    if "(Inr line, w1) = input prompt (w\<lparr>out := lines\<rparr>)"
    for line w1 prompt w lines
    using that by (auto simp: input_def Let_def split: list.splits input_event.splits)
  show "wf (measure (\<lambda>(E, versions, current_page, w). length (inp w)))" by simp
  show "((E, versions, current_page - 1, w1), E, versions, current_page, w)
          \<in> measure (\<lambda>(E, versions, current_page, w). length (inp w))"
    if "(x, w1) = input (page_prompt versions current_page)
                    (w\<lparr>out := out w @ page_lines E versions current_page\<rparr>)"
      and "x = Inr line"
    for E versions current_page w x w1 line
    using that less by simp
  show "((E, versions, current_page + 1, w1), E, versions, current_page, w)
          \<in> measure (\<lambda>(E, versions, current_page, w). length (inp w))"
    if "(x, w1) = input (page_prompt versions current_page)
                    (w\<lparr>out := out w @ page_lines E versions current_page\<rparr>)"
      and "x = Inr line"
    for E versions current_page w x w1 line
    using that less by simp
  show "((E, versions, current_page, w1\<lparr>out := lines\<rparr>), E, versions, current_page, w)
          \<in> measure (\<lambda>(E, versions, current_page, w). length (inp w))"
    if "(x, w1) = input (page_prompt versions current_page)
                    (w\<lparr>out := out w @ page_lines E versions current_page\<rparr>)"
      and "x = Inr line"
    for E versions current_page w x w1 line lines
    using that less by simp
  show "((E, versions, current_page, w1\<lparr>out := lines\<rparr>), E, versions, current_page, w)
          \<in> measure (\<lambda>(E, versions, current_page, w). length (inp w))"
    if "(x, w1) = input (page_prompt versions current_page)
                    (w\<lparr>out := out w @ page_lines E versions current_page\<rparr>)"
      and "x = Inr line"
    for E versions current_page w x w1 line lines
    using that less by simp
qed

definition cmd_update_menu :: "env \<Rightarrow> unit prog" where
  "cmd_update_menu E =
     seq (print_header ''Update SC64 Menu'')
       (bind (check_device_connected E) (\<lambda>connected.
          if \<not> connected then print ''SC64 device not connected!''
          else
            bind (is_sd_card_accessible E) (\<lambda>accessible.
              if \<not> accessible
              then prints [''SD card is not accessible.'',
                           ''Power ON your N64 to enable SD card access.'']
              else
                bind (list_local_menu_versions E) (\<lambda>versions.
                  if versions = []
                  then prints [''No menu files found in: '' @ path_str E MENU_VERSIONS_DIR,
                               CHR 0x0A
                               # ''Add .z64, .n64, or .v64 menu files to this directory.'']
                  else
                    bind (select_menu E versions 0) (\<lambda>selected.
                      case selected of
                        None \<Rightarrow> ret ()
                      | Some selected_menu \<Rightarrow>
                          seq (prints
                                 [CHR 0x0A # ''You selected: '' @ path_name selected_menu,
                                  ''This will:'',
                                  ''  1. Backup the current menu from cart (with timestamp)'',
                                  ''  2. Upload the selected menu to replace it''])
                            (bind (input (CHR 0x0A # ''Proceed? (y/n): '')) (\<lambda>confirm.
                               if lower (strip confirm) \<noteq> ''y''
                               then print ''Update cancelled.''
                               else
                                 seq (print [])
                                   (bind (backup_menu_from_cart E) (\<lambda>backed_up.
                                      if \<not> backed_up
                                      then print (CHR 0x0A
                                             # ''Backup failed. Aborting update to be safe.'')
                                      else
                                        seq (print [])
                                          (bind (upload_menu_to_cart E selected_menu)
                                             (\<lambda>uploaded.
                                                if uploaded
                                                then print (CHR 0x0A
                                                       # ''Menu update complete!'')
                                                else print (CHR 0x0A
                                                       # ''Menu upload failed. Your backup is saved in menu_versions/''))))))))))))"

definition backup_request :: "env \<Rightarrow> world \<Rightarrow> string list" where
  \<comment> \<open>the request that \<open>backup_menu_from_cart\<close> makes of the deployer when it starts in a
      given world\<close>
  "backup_request E w =
     [''sd'', ''download'', SD_MENU_PATH,
      path_str E (MENU_VERSIONS_DIR @ [''sc64menu_backup_'' @ now E (clock w) @ ''.n64''])]"

section \<open>Example worlds\<close>

definition fresh_world :: world where
  \<comment> \<open>nothing run, nothing written, nothing to read, the menu directory missing\<close>
  "fresh_world = \<lparr>calls = [], out = [], inp = [], clock = 0, menu_versions = None\<rparr>"

definition cart_env :: "(string list list \<Rightarrow> string list \<Rightarrow> outcome) \<Rightarrow> env" where
  \<comment> \<open>an installation without local ROMs, around a given deployer\<close>
  "cart_env run =
     \<lparr>SCRIPT_DIR = ''/opt/breeze'', SC64_DEPLOYER = ''/opt/breeze/sc64deployer'',
      subprocess_run = run, roms_tree = None, size_mb = (\<lambda>_. ''0.0''),
      now = (\<lambda>_. ''20250101_120000''), recursion_limit = 1000\<rparr>"

definition two_line_listing :: string where
  "two_line_listing =
     ''f 32M 2025-12-01 19:03:12 | file.z64'' @ [CHR 0x0A]
     @ ''garbage'' @ [CHR 0x0A] @ [CHR 0x0A]
     @ ''d ---- 2024-06-01 12:00:00 | /menu'' @ [CHR 0x0A]"

definition two_line_cart :: "string list list \<Rightarrow> string list \<Rightarrow> outcome" where
  \<comment> \<open>a deployer that answers every request with the same listing\<close>
  "two_line_cart history args = Completed 0 two_line_listing ''''"

definition demo_roms :: "fsnode list" where
  \<comment> \<open>a ROM directory with a nested directory, other files and odd names\<close>
  "demo_roms =
     [File ''zelda.Z64'', File ''readme.txt'',
      Dir ''sub.n64'' [File ''Mario.v64'', File ''save.sra'', File ''.z64''],
      File ''kirby.n64'']"

definition roms_env :: "fsnode list option \<Rightarrow> (string list list \<Rightarrow> string list \<Rightarrow> outcome) \<Rightarrow> env" where
  \<comment> \<open>an installation with the given ROM directory, around a given deployer\<close>
  "roms_env tree run = (cart_env run)\<lparr>roms_tree := tree\<rparr>"

definition locked_deployer :: "string list list \<Rightarrow> string list \<Rightarrow> outcome" where
  \<comment> \<open>a deployer file that is there but may not be executed\<close>
  "locked_deployer history args = Raised PermissionError"

definition missing_deployer :: "string list list \<Rightarrow> string list \<Rightarrow> outcome" where
  \<comment> \<open>no deployer file at all\<close>
  "missing_deployer history args = Raised FileNotFoundError"

definition ab_roms :: "fsnode list" where
  "ab_roms = [File ''A.z64'', File ''B.n64'']"

definition demo_cart :: "string \<Rightarrow> string list list \<Rightarrow> string list \<Rightarrow> outcome" where
  \<comment> \<open>a connected cart whose root directory lists as given and whose other directories
      are empty; every transfer works but the upload of \<open>A.z64\<close>\<close>
  "demo_cart root_listing history args =
     (if args = [''list''] then Completed 0 ''Found devices: SC64'' []
      else if args = [''sd'', ''ls''] then Completed 0 root_listing []
      else if take 2 args = [''sd'', ''ls''] then Completed 0 [] []
      else if take 3 args = [''sd'', ''upload'', ''/opt/breeze/roms/A.z64'']
        then Completed 1 [] ''write error''
      else Completed 0 [] [])"

definition a_listing :: string where
  "a_listing =
     ''d ---- 2024-06-01 12:00:00 | /saves'' @ [CHR 0x0A]
     @ ''f 32M 2025-12-01 19:03:12 | a.Z64'' @ [CHR 0x0A]"

definition c_listing :: string where
  "c_listing = ''f 8M 2025-12-01 19:03:12 | c.z64'' @ [CHR 0x0A]"

definition menu_world :: "input_event list \<Rightarrow> world" where
  \<comment> \<open>a menu file and a text file in the directory of menu versions, and what the user
      is going to enter\<close>
  "menu_world entered =
     fresh_world\<lparr>inp := entered,
                  menu_versions := Some [File ''notes.txt'', File ''menu_v2.z64'']\<rparr>"

definition unreadable_cart :: "string list list \<Rightarrow> string list \<Rightarrow> outcome" where
  \<comment> \<open>a connected cart that lists its files, fails every download and would accept
      every upload\<close>
  "unreadable_cart history args =
     (if args = [''list''] then Completed 0 ''Found devices: SC64'' []
      else if take 2 args = [''sd'', ''ls''] then Completed 0 c_listing []
      else if take 2 args = [''sd'', ''download''] then Completed 1 [] ''read error''
      else Completed 0 [] [])"

section \<open>Running programs\<close>

lemma ret_apply: "ret x w = (Inr x, w)"
  by (simp add: ret_def)

lemma throw_apply: "throw e w = (Inl e, w)"
  by (simp add: throw_def)

lemma print_apply: "print s w = (Inr (), w\<lparr>out := out w @ [s]\<rparr>)"
  by (simp add: print_def)

lemma bind_apply:
  "bind m f w = (case m w of (Inl e, w') \<Rightarrow> (Inl e, w') | (Inr x, w') \<Rightarrow> f x w')"
  by (simp add: bind_def)

lemma seq_apply:
  "seq m k w = (case m w of (Inl e, w') \<Rightarrow> (Inl e, w') | (Inr x, w') \<Rightarrow> k w')"
  by (simp add: seq_def bind_def)

lemma prints_apply: "prints ss w = (Inr (), w\<lparr>out := out w @ ss\<rparr>)"
  by (induction ss arbitrary: w) (simp_all add: ret_apply seq_apply print_apply)

declare prints.simps [simp del]

lemma print_header_apply:
  "print_header text w =
     (Inr (), w\<lparr>out := out w @ [[], replicate 60 CHR ''='', ''  '' @ text,
                                  replicate 60 CHR ''='']\<rparr>)"
  by (simp add: print_header_def prints_apply)

lemmas prog_simps =
  ret_apply throw_apply print_apply bind_apply seq_apply prints_apply print_header_apply

lemma bindE:
  assumes "bind m f w = (r, w')"
  obtains (raised) e where "m w = (Inl e, w')" and "r = Inl e"
  | (returned) x w1 where "m w = (Inr x, w1)" and "f x w1 = (r, w')"
  using assms by (auto simp: bind_def split: prod.splits sum.splits)

lemma run_sc64_command_calls:
  "calls (snd (run_sc64_command E args w)) = calls w @ [args]"
  by (simp add: run_sc64_command_def Let_def split: outcome.splits)

lemma run_sc64_command_same_calls:
  "calls v = calls w \<Longrightarrow> fst (run_sc64_command E args v) = fst (run_sc64_command E args w)"
  by (simp add: run_sc64_command_def Let_def split: outcome.splits)

lemma is_sd_card_accessible_calls:
  "calls (snd (is_sd_card_accessible E w)) = calls w @ [[''sd'', ''ls'']]"
  using run_sc64_command_calls [of E "[''sd'', ''ls'']" w]
  by (auto simp: is_sd_card_accessible_def prog_simps split: prod.splits sum.splits)

lemma is_sd_card_accessible_same_calls:
  "calls v = calls w \<Longrightarrow>
   fst (is_sd_card_accessible E v) = fst (is_sd_card_accessible E w)"
  using run_sc64_command_same_calls [of v w E "[''sd'', ''ls'']"]
  by (auto simp: is_sd_card_accessible_def prog_simps split: prod.splits sum.splits)

lemma check_device_connected_calls:
  "calls (snd (check_device_connected E w)) = calls w @ [[''list'']]"
  using run_sc64_command_calls [of E "[''list'']" w]
  by (auto simp: check_device_connected_def prog_simps split: prod.splits sum.splits)

section \<open>Properties of name normalisation\<close>

lemma length_lower [simp]: "length (lower s) = length s"
  by (simp add: lower_def)

lemma lower_append [simp]: "lower (a @ b) = lower a @ lower b"
  by (simp add: lower_def)

lemma strip_first_ext_uniform:
  assumes "\<forall>e \<in> set exts. length e = n"
  shows "strip_first_ext exts name =
           (if \<exists>e \<in> set exts. endswith (lower name) e then drop_last n name else name)"
  using assms by (induction exts) auto

lemma ROM_EXTENSIONS_length: "\<forall>e \<in> set ROM_EXTENSIONS. length e = 4"
  by (simp add: ROM_EXTENSIONS_def)

lemma normalize_rom_name_in_eq:
  assumes "set exts = set ROM_EXTENSIONS"
  shows "normalize_rom_name_in exts name =
           strip (lower (if \<exists>e \<in> set ROM_EXTENSIONS. endswith (lower name) e
                         then drop_last 4 name else name))"
proof -
  have "\<forall>e \<in> set exts. length e = 4"
    using assms ROM_EXTENSIONS_length by simp
  from strip_first_ext_uniform [OF this] show ?thesis
    using assms by (simp add: normalize_rom_name_in_def)
qed

lemma endswith_append_same_length:
  "length e = length ext \<Longrightarrow> endswith (base @ ext) e \<longleftrightarrow> e = ext"
  by (auto simp: endswith_def)

text \<open>
  Claim C3. \<open>normalize_rom_name\<close> cuts exactly one trailing extension out of
  \<open>.z64\<close>, \<open>.n64\<close>, \<open>.v64\<close>, whatever its casing, then lowercases and trims: a name
  \<open>base @ ext\<close> whose \<open>ext\<close> lowercases to a ROM extension normalises to the trimmed
  lowercase \<open>base\<close> (so only the last of two extensions goes); a name ending in none of
  them is only lowercased and trimmed; the order in which the extension set is iterated
  does not matter; and the three examples of the specification hold.
\<close>

theorem normalize_rom_name_spec:
  "(lower ext \<in> set ROM_EXTENSIONS \<longrightarrow> normalize_rom_name (base @ ext) = strip (lower base))
   \<and> ((\<forall>e \<in> set ROM_EXTENSIONS. \<not> endswith (lower name) e)
        \<longrightarrow> normalize_rom_name name = strip (lower name))
   \<and> (set exts = set ROM_EXTENSIONS
        \<longrightarrow> normalize_rom_name_in exts name = normalize_rom_name name)
   \<and> normalize_rom_name ''Game.Z64'' = ''game''
   \<and> normalize_rom_name ''  Game  .z64'' = ''game''
   \<and> normalize_rom_name ''game'' = ''game''"
proof (intro conjI impI)
  assume ext: "lower ext \<in> set ROM_EXTENSIONS"
  then have len: "length ext = 4"
    using ROM_EXTENSIONS_length by fastforce
  have "endswith (lower (base @ ext)) (lower ext)"
    by (simp add: endswith_def)
  with ext have "\<exists>e \<in> set ROM_EXTENSIONS. endswith (lower (base @ ext)) e"
    by blast
  then show "normalize_rom_name (base @ ext) = strip (lower base)"
    using len by (simp add: normalize_rom_name_def normalize_rom_name_in_eq drop_last_def
        del: lower_append)
next
  assume "\<forall>e \<in> set ROM_EXTENSIONS. \<not> endswith (lower name) e"
  then show "normalize_rom_name name = strip (lower name)"
    by (simp add: normalize_rom_name_def normalize_rom_name_in_eq)
next
  assume "set exts = set ROM_EXTENSIONS"
  then show "normalize_rom_name_in exts name = normalize_rom_name name"
    by (simp add: normalize_rom_name_def normalize_rom_name_in_eq)
next
  show "normalize_rom_name ''Game.Z64'' = ''game''" by code_simp
  show "normalize_rom_name ''  Game  .z64'' = ''game''" by code_simp
  show "normalize_rom_name ''game'' = ''game''" by code_simp
qed

theorem normalize_rom_name_spec_witness:
  "lower ''.N64'' \<in> set ROM_EXTENSIONS
   \<and> normalize_rom_name (''Zelda.z64'' @ ''.N64'') = ''zelda.z64''
   \<and> \<not> (\<exists>e \<in> set ROM_EXTENSIONS. endswith (lower ''save.sra'') e)
   \<and> normalize_rom_name ''save.sra'' = ''save.sra''
   \<and> set [''.v64'', ''.z64'', ''.n64''] = set ROM_EXTENSIONS
   \<and> normalize_rom_name_in [''.v64'', ''.z64'', ''.n64''] ''save.sra'' = ''save.sra''"
proof -
  have a: "lower ''.N64'' \<in> set ROM_EXTENSIONS" by code_simp
  have b: "\<forall>e \<in> set ROM_EXTENSIONS. \<not> endswith (lower ''save.sra'') e" by code_simp
  have c: "set [''.v64'', ''.z64'', ''.n64''] = set ROM_EXTENSIONS"
    by (auto simp: ROM_EXTENSIONS_def)
  have d: "strip (lower ''Zelda.z64'') = ''zelda.z64''" by code_simp
  have e: "strip (lower ''save.sra'') = ''save.sra''" by code_simp
  show ?thesis
    using a b c d e
      normalize_rom_name_spec [of "''.N64''" "''Zelda.z64''" "''save.sra''"
        "[''.v64'', ''.z64'', ''.n64'']"]
    by simp
qed
section \<open>Properties of the listing parser\<close>

lemma pipe_not_space: "\<not> is_space CHR ''|''"
  by (simp add: is_space_def)

lemma strip_Cons_space: "is_space x \<Longrightarrow> strip (x # s) = strip s"
  by (simp add: strip_def lstrip_def)

lemma rstrip_snoc_space: "is_space x \<Longrightarrow> rstrip (s @ [x]) = rstrip s"
  by (simp add: rstrip_def)

lemma lstrip_append_not_all_space:
  "\<exists>c \<in> set s. \<not> is_space c \<Longrightarrow> lstrip (s @ t) = lstrip s @ t"
  by (auto simp: lstrip_def dropWhile_append)

lemma lstrip_all_space: "\<forall>c \<in> set s. is_space c \<Longrightarrow> lstrip (s @ t) = lstrip t"
  by (simp add: lstrip_def dropWhile_append)

lemma strip_snoc_space: "is_space x \<Longrightarrow> strip (s @ [x]) = strip s"
proof (cases "\<exists>c \<in> set s. \<not> is_space c")
  case True
  assume "is_space x"
  then show ?thesis
    using True by (simp add: strip_def lstrip_append_not_all_space rstrip_snoc_space)
next
  case False
  assume x: "is_space x"
  from False have all: "\<forall>c \<in> set s. is_space c" by blast
  have "lstrip (s @ [x]) = []"
    using all x by (simp add: lstrip_all_space) (simp add: lstrip_def)
  moreover have "lstrip s = []"
    using all by (simp add: lstrip_def)
  ultimately show ?thesis
    by (simp add: strip_def)
qed

lemma in_set_dropWhile: "x \<in> set s \<Longrightarrow> \<not> P x \<Longrightarrow> x \<in> set (dropWhile P s)"
  by (induction s) auto

lemma strip_empty_no_pipe: "CHR ''|'' \<in> set line \<Longrightarrow> strip line \<noteq> []"
proof -
  assume p: "CHR ''|'' \<in> set line"
  then have "CHR ''|'' \<in> set (rev (lstrip line))"
    by (simp add: lstrip_def in_set_dropWhile pipe_not_space)
  then have "CHR ''|'' \<in> set (dropWhile is_space (rev (lstrip line)))"
    by (rule in_set_dropWhile) (rule pipe_not_space)
  then have "dropWhile is_space (rev (lstrip line)) \<noteq> []"
    by force
  then show ?thesis by (simp add: strip_def rstrip_def)
qed

lemma startswith_single: "startswith s [c] \<longleftrightarrow> (case s of [] \<Rightarrow> False | x # _ \<Rightarrow> x = c)"
  by (cases s) (auto simp: startswith_def)

lemma second_word: "(if length ws \<ge> 2 then ws ! 1 else []) = (case ws of _ # tok # _ \<Rightarrow> tok | _ \<Rightarrow> [])"
  by (cases ws; simp split: list.splits)

lemma listing_loop_line:
  assumes "CHR ''|'' \<in> set line"
  shows "listing_loop (line # rest) = spec_record_of_line line # listing_loop rest"
proof -
  have ne: "strip line \<noteq> []" using assms by (rule strip_empty_no_pipe)
  have sz: "(if 2 \<le> length ws then ws ! 1 else []) = (case ws of _ # tok # _ \<Rightarrow> tok | _ \<Rightarrow> [])"
    for ws :: "string list" by (rule second_word)
  show ?thesis
    using assms ne
    by (simp add: split_once_def Let_def spec_record_of_line_def startswith_single sz
        split: list.splits)
qed

lemma listing_loop_skip:
  "CHR ''|'' \<notin> set line \<Longrightarrow> listing_loop (line # rest) = listing_loop rest"
  by simp

lemma listing_loop_spec:
  "listing_loop ls = map spec_record_of_line (filter (\<lambda>line. CHR ''|'' \<in> set line) ls)"
  by (induction ls) (simp_all add: listing_loop_line listing_loop_skip del: listing_loop.simps(2))

lemma split_on_not_Nil [simp]: "split_on c s \<noteq> []"
  by (induction s) (auto split: list.splits)

lemma split_on_Cons_other:
  "x \<noteq> c \<Longrightarrow> split_on c (x # s) = (x # hd (split_on c s)) # tl (split_on c s)"
  by (cases "split_on c s") simp_all

lemma split_on_snoc:
  "split_on c (s @ [x]) =
     (if x = c then split_on c s @ [[]]
      else butlast (split_on c s) @ [last (split_on c s) @ [x]])"
proof (induction s)
  case Nil
  show ?case by simp
next
  case (Cons a s)
  obtain y ys where y: "split_on c s = y # ys"
    by (cases "split_on c s") simp_all
  show ?case
  proof (cases "a = c")
    case True
    then show ?thesis using Cons by simp
  next
    case False
    then show ?thesis
      using Cons y by (cases "x = c"; cases ys; simp)
  qed
qed

lemma spec_record_lead_space:
  "is_space x \<Longrightarrow> spec_record_of_line (x # l) = spec_record_of_line l"
proof -
  assume x: "is_space x"
  then have "x \<noteq> CHR ''|''" using pipe_not_space by auto
  then show ?thesis
    using x by (simp add: spec_record_of_line_def strip_Cons_space)
qed

lemma spec_record_trail_space:
  assumes x: "is_space x" and p: "CHR ''|'' \<in> set l"
  shows "spec_record_of_line (l @ [x]) = spec_record_of_line l"
proof -
  have t: "takeWhile (\<lambda>x. x \<noteq> CHR ''|'') (l @ [x]) = takeWhile (\<lambda>x. x \<noteq> CHR ''|'') l"
    using p by (simp add: takeWhile_append1)
  have d: "dropWhile (\<lambda>x. x \<noteq> CHR ''|'') (l @ [x]) = dropWhile (\<lambda>x. x \<noteq> CHR ''|'') l @ [x]"
    using p by (simp add: dropWhile_append1)
  have ne: "dropWhile (\<lambda>x. x \<noteq> CHR ''|'') l \<noteq> []"
    using p by (auto simp: dropWhile_eq_Nil_conv)
  show ?thesis
    unfolding spec_record_of_line_def t d
    using ne x by (simp add: strip_snoc_space)
qed

lemma spec_lines_lead_space:
  assumes "is_space x"
  shows "map spec_record_of_line (filter (\<lambda>l. CHR ''|'' \<in> set l) (split_on c (x # s))) =
         map spec_record_of_line (filter (\<lambda>l. CHR ''|'' \<in> set l) (split_on c s))"
proof (cases "x = c")
  case True
  then show ?thesis by simp
next
  case False
  have np: "x \<noteq> CHR ''|''" using assms pipe_not_space by auto
  obtain y ys where y: "split_on c s = y # ys"
    by (cases "split_on c s") simp_all
  show ?thesis
    using False np y assms by (simp add: spec_record_lead_space)
qed

lemma spec_lines_lstrip:
  "map spec_record_of_line (filter (\<lambda>l. CHR ''|'' \<in> set l) (split_on c (lstrip s))) =
   map spec_record_of_line (filter (\<lambda>l. CHR ''|'' \<in> set l) (split_on c s))"
proof (induction s)
  case Nil
  show ?case by (simp add: lstrip_def)
next
  case (Cons x s)
  show ?case
  proof (cases "is_space x")
    case True
    then have "lstrip (x # s) = lstrip s" by (simp add: lstrip_def)
    then show ?thesis using Cons True by (simp only: spec_lines_lead_space)
  next
    case False
    then have "lstrip (x # s) = x # s" by (simp add: lstrip_def)
    then show ?thesis by simp
  qed
qed

lemma spec_lines_trail_space:
  assumes "is_space x"
  shows "map spec_record_of_line (filter (\<lambda>l. CHR ''|'' \<in> set l) (split_on c (s @ [x]))) =
         map spec_record_of_line (filter (\<lambda>l. CHR ''|'' \<in> set l) (split_on c s))"
proof -
  have np: "x \<noteq> CHR ''|''" using assms pipe_not_space by auto
  obtain bs l where bl: "split_on c s = bs @ [l]"
    by (cases "split_on c s" rule: rev_cases) simp_all
  show ?thesis
  proof (cases "x = c")
    case True
    then show ?thesis by (simp add: split_on_snoc)
  next
    case False
    then have "split_on c (s @ [x]) = bs @ [l @ [x]]"
      by (simp add: split_on_snoc bl)
    then show ?thesis
      using np assms by (simp add: bl spec_record_trail_space)
  qed
qed

lemma spec_lines_rstrip:
  "map spec_record_of_line (filter (\<lambda>l. CHR ''|'' \<in> set l) (split_on c (rstrip s))) =
   map spec_record_of_line (filter (\<lambda>l. CHR ''|'' \<in> set l) (split_on c s))"
proof (induction s rule: rev_induct)
  case Nil
  show ?case by (simp add: rstrip_def)
next
  case (snoc x s)
  show ?case
  proof (cases "is_space x")
    case True
    then show ?thesis
      using snoc by (simp only: rstrip_snoc_space spec_lines_trail_space)
  next
    case False
    then have "rstrip (s @ [x]) = s @ [x]" by (simp add: rstrip_def)
    then show ?thesis by simp
  qed
qed

lemma parse_listing_spec: "parse_listing stdout = spec_parse_listing stdout"
  by (simp add: parse_listing_def spec_parse_listing_def listing_loop_spec strip_def
      spec_lines_rstrip spec_lines_lstrip)

lemma run_sc64_command_completed:
  "subprocess_run E (calls w) args = Completed code stdout stderr \<Longrightarrow>
   run_sc64_command E args w = (Inr (code, stdout, stderr), w\<lparr>calls := calls w @ [args]\<rparr>)"
  by (simp add: run_sc64_command_def)

lemma list_sd_card_files_completed:
  assumes "subprocess_run E (calls w)
             (if path = None \<or> path = Some ''/'' then [''sd'', ''ls'']
              else [''sd'', ''ls'', the path]) = Completed code stdout stderr"
  shows "fst (list_sd_card_files E path w) =
           Inr (if code \<noteq> 0 then [] else parse_listing stdout)"
proof (cases "path = None \<or> path = Some ''/''")
  case True
  with assms have "subprocess_run E (calls w) [''sd'', ''ls''] = Completed code stdout stderr"
    by simp
  from run_sc64_command_completed [OF this] True show ?thesis
    by (simp add: list_sd_card_files_def bind_def ret_def)
next
  case False
  with assms have "subprocess_run E (calls w) [''sd'', ''ls'', the path]
                     = Completed code stdout stderr"
    by simp
  from run_sc64_command_completed [OF this] False show ?thesis
    by (auto simp: list_sd_card_files_def bind_def ret_def)
qed

text \<open>
  Claim C2. Given exit code 0, \<open>list_sd_card_files\<close> returns one record per line of the
  raw text that has a pipe, in order, and nothing for any other line. The record of a
  line \<open>m @ ''|'' @ n\<close> with no pipe in \<open>m\<close> has the trimmed \<open>n\<close> as its name; its type is
  \<open>dir\<close> (the specification's "directory") exactly when the trimmed \<open>m\<close> starts with \<open>d\<close>,
  and \<open>file\<close> otherwise; its size is the second whitespace-separated token of the trimmed
  \<open>m\<close>, or empty; its path is the name, with a slash put in front unless it starts with
  one. The two example lines of the specification parse as it says, and a line without
  a pipe gives no record.
\<close>

theorem list_sd_card_files_spec:
  "(subprocess_run E (calls w)
      (if path = None \<or> path = Some ''/'' then [''sd'', ''ls'']
       else [''sd'', ''ls'', the path]) = Completed 0 stdout stderr
    \<longrightarrow> fst (list_sd_card_files E path w) =
          Inr (map spec_record_of_line
                (filter (\<lambda>line. CHR ''|'' \<in> set line) (split_on CHR 0x0A stdout))))
   \<and> (CHR ''|'' \<notin> set m
      \<longrightarrow> spec_record_of_line (m @ ''|'' @ n) =
            \<lparr>e_name = strip n,
             e_type = (if strip m \<noteq> [] \<and> hd (strip m) = CHR ''d'' then ''dir'' else ''file''),
             e_size = (if length (split_ws (strip m)) \<ge> 2 then split_ws (strip m) ! 1 else []),
             e_path = (if strip n \<noteq> [] \<and> hd (strip n) = CHR ''/'' then strip n
                       else ''/'' @ strip n)\<rparr>)
   \<and> parse_listing ''f 32M 2025-12-01 19:03:12 | file.z64'' =
        [\<lparr>e_name = ''file.z64'', e_type = ''file'', e_size = ''32M'', e_path = ''/file.z64''\<rparr>]
   \<and> parse_listing ''d ---- 2024-06-01 12:00:00 | /menu'' =
        [\<lparr>e_name = ''/menu'', e_type = ''dir'', e_size = ''----'', e_path = ''/menu''\<rparr>]
   \<and> parse_listing ''no separator here'' = []"
proof (intro conjI impI)
  assume "subprocess_run E (calls w)
      (if path = None \<or> path = Some ''/'' then [''sd'', ''ls'']
       else [''sd'', ''ls'', the path]) = Completed 0 stdout stderr"
  from list_sd_card_files_completed [OF this]
  show "fst (list_sd_card_files E path w) =
          Inr (map spec_record_of_line
                (filter (\<lambda>line. CHR ''|'' \<in> set line) (split_on CHR 0x0A stdout)))"
    by (simp add: parse_listing_spec spec_parse_listing_def)
next
  assume m: "CHR ''|'' \<notin> set m"
  have t: "takeWhile (\<lambda>x. x \<noteq> CHR ''|'') (m @ ''|'' @ n) = m"
    using m by (induction m) auto
  have d: "dropWhile (\<lambda>x. x \<noteq> CHR ''|'') (m @ ''|'' @ n) = ''|'' @ n"
    using m by (induction m) auto
  show "spec_record_of_line (m @ ''|'' @ n) =
            \<lparr>e_name = strip n,
             e_type = (if strip m \<noteq> [] \<and> hd (strip m) = CHR ''d'' then ''dir'' else ''file''),
             e_size = (if length (split_ws (strip m)) \<ge> 2 then split_ws (strip m) ! 1 else []),
             e_path = (if strip n \<noteq> [] \<and> hd (strip n) = CHR ''/'' then strip n
                       else ''/'' @ strip n)\<rparr>"
    unfolding spec_record_of_line_def t d
    by (simp add: Let_def second_word split: list.splits)
next
  show "parse_listing ''f 32M 2025-12-01 19:03:12 | file.z64'' =
        [\<lparr>e_name = ''file.z64'', e_type = ''file'', e_size = ''32M'', e_path = ''/file.z64''\<rparr>]"
    by code_simp
  show "parse_listing ''d ---- 2024-06-01 12:00:00 | /menu'' =
        [\<lparr>e_name = ''/menu'', e_type = ''dir'', e_size = ''----'', e_path = ''/menu''\<rparr>]"
    by code_simp
  show "parse_listing ''no separator here'' = []"
    by code_simp
qed

theorem list_sd_card_files_spec_witness:
  "subprocess_run (cart_env two_line_cart) (calls fresh_world) [''sd'', ''ls'', ''/roms'']
     = Completed 0 two_line_listing []
   \<and> fst (list_sd_card_files (cart_env two_line_cart) (Some ''/roms'') fresh_world) =
       Inr [\<lparr>e_name = ''file.z64'', e_type = ''file'', e_size = ''32M'', e_path = ''/file.z64''\<rparr>,
            \<lparr>e_name = ''/menu'', e_type = ''dir'', e_size = ''----'', e_path = ''/menu''\<rparr>]
   \<and> CHR ''|'' \<notin> set ''f  32M 2025 ''
   \<and> spec_record_of_line (''f  32M 2025 '' @ ''|'' @ '' a|b.z64 '') =
       \<lparr>e_name = ''a|b.z64'', e_type = ''file'', e_size = ''32M'', e_path = ''/a|b.z64''\<rparr>"
proof -
  have a: "subprocess_run (cart_env two_line_cart) (calls fresh_world)
             (if Some ''/roms'' = None \<or> Some ''/roms'' = Some ''/'' then [''sd'', ''ls'']
              else [''sd'', ''ls'', the (Some ''/roms'')]) = Completed 0 two_line_listing []"
    by (simp add: cart_env_def two_line_cart_def)
  have b: "map spec_record_of_line
             (filter (\<lambda>line. CHR ''|'' \<in> set line) (split_on CHR 0x0A two_line_listing)) =
           [\<lparr>e_name = ''file.z64'', e_type = ''file'', e_size = ''32M'', e_path = ''/file.z64''\<rparr>,
            \<lparr>e_name = ''/menu'', e_type = ''dir'', e_size = ''----'', e_path = ''/menu''\<rparr>]"
    by code_simp
  have c: "CHR ''|'' \<notin> set ''f  32M 2025 ''" by simp
  have d: "strip '' a|b.z64 '' = ''a|b.z64''" by code_simp
  have e: "strip ''f  32M 2025 '' = ''f  32M 2025''" by code_simp
  have f: "split_ws ''f  32M 2025'' = [''f'', ''32M'', ''2025'']" by code_simp
  show ?thesis
    using a b c
      list_sd_card_files_spec [of "cart_env two_line_cart" fresh_world "Some ''/roms''"
        two_line_listing "[]" "''f  32M 2025 ''" "'' a|b.z64 ''"]
    by (simp add: d e f)
qed

section \<open>Properties of the deployer invoker\<close>

text \<open>
  Claim C5, as the code has it. \<open>run_sc64_command\<close> returns the exit code and the two
  streams of a run that completes; it returns the exit code \<open>-1\<close>, an empty output and a
  message in place of the error stream exactly when starting the deployer raises
  \<open>FileNotFoundError\<close>; any other exception of the start reaches the caller. Each call
  is one run of the deployer.
\<close>

theorem run_sc64_command_spec:
  "(subprocess_run E (calls w) args = Completed code stdout stderr
      \<longrightarrow> fst (run_sc64_command E args w) = Inr (code, stdout, stderr))
   \<and> (subprocess_run E (calls w) args = Raised FileNotFoundError
      \<longrightarrow> fst (run_sc64_command E args w) =
            Inr (- 1, [], ''Error: sc64deployer not found at '' @ SC64_DEPLOYER E))
   \<and> (subprocess_run E (calls w) args = Raised e \<and> e \<noteq> FileNotFoundError
      \<longrightarrow> fst (run_sc64_command E args w) = Inl e)
   \<and> calls (snd (run_sc64_command E args w)) = calls w @ [args]"
  by (auto simp: run_sc64_command_def Let_def split: outcome.splits)

theorem run_sc64_command_spec_witness:
  "subprocess_run (cart_env two_line_cart) (calls fresh_world) [''list'']
     = Completed 0 two_line_listing []
   \<and> fst (run_sc64_command (cart_env two_line_cart) [''list''] fresh_world)
     = Inr (0, two_line_listing, [])
   \<and> subprocess_run (cart_env missing_deployer) (calls fresh_world) [''list'']
     = Raised FileNotFoundError
   \<and> fst (run_sc64_command (cart_env missing_deployer) [''list''] fresh_world)
     = Inr (- 1, [], ''Error: sc64deployer not found at /opt/breeze/sc64deployer'')
   \<and> subprocess_run (cart_env locked_deployer) (calls fresh_world) [''list'']
     = Raised PermissionError
   \<and> fst (run_sc64_command (cart_env locked_deployer) [''list''] fresh_world)
     = Inl PermissionError"
proof -
  have a: "subprocess_run (cart_env two_line_cart) (calls fresh_world) [''list'']
             = Completed 0 two_line_listing []"
    by (simp add: cart_env_def two_line_cart_def)
  have b: "subprocess_run (cart_env missing_deployer) (calls fresh_world) [''list'']
             = Raised FileNotFoundError"
    by (simp add: cart_env_def missing_deployer_def)
  have c: "subprocess_run (cart_env locked_deployer) (calls fresh_world) [''list'']
             = Raised PermissionError \<and> PermissionError \<noteq> FileNotFoundError"
    by (simp add: cart_env_def locked_deployer_def)
  note ra = run_sc64_command_spec [THEN conjunct1, THEN mp, OF a]
  note rb = run_sc64_command_spec [THEN conjunct2, THEN conjunct1, THEN mp, OF b]
  note rc = run_sc64_command_spec [THEN conjunct2, THEN conjunct2, THEN conjunct1, THEN mp, OF c]
  from a b c ra rb rc show ?thesis
    by (simp add: cart_env_def)
qed

text \<open>
  The claim as the specification words it ("never raises to its caller" whenever the
  deployer cannot be started) fails: a deployer file without the permission to execute
  makes the start raise \<open>PermissionError\<close>, which \<open>run_sc64_command\<close> does not catch.
\<close>

theorem run_sc64_command_raises_counterexample:
  "fst (run_sc64_command (cart_env locked_deployer) [''list''] fresh_world) = Inl PermissionError"
  by (simp add: run_sc64_command_def cart_env_def locked_deployer_def)

section \<open>Properties of the prompts\<close>

lemma choices_loop_accepted:
  assumes "\<forall>p \<in> set parts. py_int (strip p) \<noteq> None"
  shows "choices_loop max_val parts choices w =
           (Inr (choices @ [v \<leftarrow> map (\<lambda>p. the (py_int (strip p))) parts. 1 \<le> v \<and> v \<le> max_val]),
            w\<lparr>out := out w @ map (\<lambda>v. ''Skipping invalid choice: '' @ str_int v)
                 [v \<leftarrow> map (\<lambda>p. the (py_int (strip p))) parts. \<not> (1 \<le> v \<and> v \<le> max_val)]\<rparr>)"
  using assms
proof (induction parts arbitrary: choices w)
  case Nil
  show ?case by (simp add: ret_def)
next
  case (Cons p parts)
  then obtain v where v: "py_int (strip p) = Some v" by auto
  from Cons have rest: "\<forall>p \<in> set parts. py_int (strip p) \<noteq> None" by simp
  show ?case
  proof (cases "1 \<le> v \<and> v \<le> max_val")
    case True
    then show ?thesis using v by (simp add: Cons.IH [OF rest])
  next
    case False
    then show ?thesis
      using v by (auto simp: Cons.IH [OF rest] seq_def bind_def print_def)
  qed
qed

lemma input_Line:
  "inp w = Line s # rest \<Longrightarrow> input p w = (Inr s, w\<lparr>out := out w @ [p], inp := rest\<rparr>)"
  by (simp add: input_def Let_def)


declare get_choice.simps [simp del] get_multi_choice.simps [simp del]

lemma get_multi_choice_Line:
  assumes "inp w = Line s # rest"
  shows "get_multi_choice max_val prompt w =
     (let w1 = w\<lparr>out := out w @ [prompt @ '' (e.g. 1,3,5 or 'all', or 0 to cancel): ''],
                  inp := rest\<rparr>;
          raw = lower (strip s)
      in if raw = ''0'' then (Inr [], w1)
         else if raw = ''all'' then (Inr [1..max_val], w1)
         else case choices_loop max_val (split_on CHR '','' raw) [] w1 of
                (Inl e, w2) \<Rightarrow>
                  if e = ValueError
                  then get_multi_choice max_val prompt
                         (w2\<lparr>out := out w2
                               @ [''Please enter valid numbers separated by commas'']\<rparr>)
                  else (Inl e, w2)
              | (Inr choices, w2) \<Rightarrow> (Inr (sorted_list_of_set (set choices)), w2))"
  by (subst get_multi_choice.simps) (simp add: input_Line [OF assms] Let_def)

text \<open>
  Claim C6. Of a line the user enters, trimmed and lowercased, \<open>get_multi_choice\<close>
  makes the empty selection when it is \<open>0\<close>, the whole range from 1 to \<open>max_val\<close> when it
  is \<open>all\<close>, and otherwise, when every comma-separated token reads as an integer, the
  sorted list without duplicates of the integers that lie between 1 and \<open>max_val\<close>; each
  token out of range is reported, in order, and left out, and nothing else is written or
  read. So \<open>1,3,5\<close> with 5 gives 1, 3, 5 and \<open>all\<close> with 3 gives 1, 2, 3.
\<close>

theorem get_multi_choice_spec:
  assumes "inp w = Line s # rest"
    and "raw = lower (strip s)"
    and "vals = map (\<lambda>p. the (py_int (strip p))) (split_on CHR '','' raw)"
    and "w1 = w\<lparr>out := out w @ [prompt @ '' (e.g. 1,3,5 or 'all', or 0 to cancel): ''],
                 inp := rest\<rparr>"
  shows "(raw = ''0'' \<longrightarrow> get_multi_choice max_val prompt w = (Inr [], w1))
    \<and> (raw = ''all'' \<longrightarrow> get_multi_choice max_val prompt w = (Inr [1..max_val], w1))
    \<and> (raw \<noteq> ''0'' \<and> raw \<noteq> ''all''
         \<and> (\<forall>p \<in> set (split_on CHR '','' raw). py_int (strip p) \<noteq> None)
       \<longrightarrow> (\<exists>r. get_multi_choice max_val prompt w =
                  (Inr r, w1\<lparr>out := out w1 @ map (\<lambda>v. ''Skipping invalid choice: '' @ str_int v)
                                        [v \<leftarrow> vals. \<not> (1 \<le> v \<and> v \<le> max_val)]\<rparr>)
                \<and> sorted r \<and> distinct r \<and> set r = {v \<in> set vals. 1 \<le> v \<and> v \<le> max_val}))
    \<and> fst (get_multi_choice 5 ''Select ROMs'' (fresh_world\<lparr>inp := [Line ''1,3,5'']\<rparr>))
        = Inr [1, 3, 5]
    \<and> fst (get_multi_choice 3 ''Select ROMs'' (fresh_world\<lparr>inp := [Line ''all'']\<rparr>))
        = Inr [1, 2, 3]"
proof (intro conjI impI)
  assume "raw = ''0''"
  then show "get_multi_choice max_val prompt w = (Inr [], w1)"
    using assms by (simp add: get_multi_choice_Line [OF assms(1)] Let_def)
next
  assume "raw = ''all''"
  then show "get_multi_choice max_val prompt w = (Inr [1..max_val], w1)"
    using assms by (simp add: get_multi_choice_Line [OF assms(1)] Let_def)
next
  assume a: "raw \<noteq> ''0'' \<and> raw \<noteq> ''all''
         \<and> (\<forall>p \<in> set (split_on CHR '','' raw). py_int (strip p) \<noteq> None)"
  then have ok: "\<forall>p \<in> set (split_on CHR '','' raw). py_int (strip p) \<noteq> None" by simp
  let ?r = "sorted_list_of_set (set [v \<leftarrow> vals. 1 \<le> v \<and> v \<le> max_val])"
  have step: "get_multi_choice max_val prompt w =
          (case choices_loop max_val (split_on CHR '','' raw) [] w1 of
             (Inl e, w2) \<Rightarrow>
               if e = ValueError
               then get_multi_choice max_val prompt
                      (w2\<lparr>out := out w2
                            @ [''Please enter valid numbers separated by commas'']\<rparr>)
               else (Inl e, w2)
           | (Inr choices, w2) \<Rightarrow> (Inr (sorted_list_of_set (set choices)), w2))"
    using a unfolding get_multi_choice_Line [OF assms(1)] Let_def assms(2) [symmetric]
      assms(4) [symmetric]
    by simp
  have "get_multi_choice max_val prompt w =
          (Inr ?r, w1\<lparr>out := out w1 @ map (\<lambda>v. ''Skipping invalid choice: '' @ str_int v)
                                        [v \<leftarrow> vals. \<not> (1 \<le> v \<and> v \<le> max_val)]\<rparr>)"
    unfolding step choices_loop_accepted [OF ok] assms(3) by simp
  moreover have "sorted ?r \<and> distinct ?r \<and> set ?r = {v \<in> set vals. 1 \<le> v \<and> v \<le> max_val}"
    by auto
  ultimately show "\<exists>r. get_multi_choice max_val prompt w =
                  (Inr r, w1\<lparr>out := out w1 @ map (\<lambda>v. ''Skipping invalid choice: '' @ str_int v)
                                        [v \<leftarrow> vals. \<not> (1 \<le> v \<and> v \<le> max_val)]\<rparr>)
                \<and> sorted r \<and> distinct r \<and> set r = {v \<in> set vals. 1 \<le> v \<and> v \<le> max_val}"
    by blast
next
  show "fst (get_multi_choice 5 ''Select ROMs'' (fresh_world\<lparr>inp := [Line ''1,3,5'']\<rparr>))
        = Inr [1, 3, 5]"
    by code_simp
  show "fst (get_multi_choice 3 ''Select ROMs'' (fresh_world\<lparr>inp := [Line ''all'']\<rparr>))
        = Inr [1, 2, 3]"
    by code_simp
qed


theorem get_multi_choice_spec_witness:
  "(\<exists>r. get_multi_choice 3 ''Select ROMs'' (fresh_world\<lparr>inp := [Line ''2, 9,1,2,-4'', Interrupt]\<rparr>) =
         (Inr r, fresh_world\<lparr>out := [''Select ROMs (e.g. 1,3,5 or 'all', or 0 to cancel): '',
                                      ''Skipping invalid choice: 9'',
                                      ''Skipping invalid choice: -4''],
                             inp := [Interrupt]\<rparr>)
        \<and> sorted r \<and> distinct r \<and> set r = {1, 2})
   \<and> get_multi_choice 3 ''Select ROMs'' (fresh_world\<lparr>inp := [Line '' 0 '']\<rparr>) =
       (Inr [], fresh_world\<lparr>out := [''Select ROMs (e.g. 1,3,5 or 'all', or 0 to cancel): ''],
                            inp := []\<rparr>)
   \<and> get_multi_choice 3 ''Select ROMs'' (fresh_world\<lparr>inp := [Line ''All'']\<rparr>) =
       (Inr [1, 2, 3], fresh_world\<lparr>out := [''Select ROMs (e.g. 1,3,5 or 'all', or 0 to cancel): ''],
                                   inp := []\<rparr>)"
proof -
  let ?p = "''Select ROMs''"
  let ?q = "?p @ '' (e.g. 1,3,5 or 'all', or 0 to cancel): ''"
  let ?w = "\<lambda>evs. fresh_world\<lparr>inp := evs\<rparr>"
  let ?w1 = "\<lambda>evs. (?w evs)\<lparr>out := out (?w evs) @ [?q], inp := tl evs\<rparr>"
  have w1: "?w1 (Line s # rest) = (?w (Line s # rest))\<lparr>out := out (?w (Line s # rest)) @ [?q],
                                                        inp := rest\<rparr>" for s rest
    by simp
  have i: "inp (?w (Line s # rest)) = Line s # rest" for s rest by simp
  have raw1: "''2, 9,1,2,-4'' = lower (strip ''2, 9,1,2,-4'')" by code_simp
  have vals1: "[2, 9, 1, 2, - 4] =
                 map (\<lambda>p. the (py_int (strip p))) (split_on CHR '','' ''2, 9,1,2,-4'')"
    by code_simp
  have ok1: "''2, 9,1,2,-4'' \<noteq> ''0'' \<and> ''2, 9,1,2,-4'' \<noteq> ''all''
             \<and> (\<forall>p \<in> set (split_on CHR '','' ''2, 9,1,2,-4''). py_int (strip p) \<noteq> None)"
    by code_simp
  have s9: "str_int 9 = ''9''" by code_simp
  have s4: "str_int (- 4) = ''-4''" by code_simp
  have raw2: "''0'' = lower (strip '' 0 '')" by code_simp
  have raw3: "''all'' = lower (strip ''All'')" by code_simp
  have set12: "{v \<in> set [2, 9, 1, 2, - 4]. 1 \<le> v \<and> v \<le> (3::int)} = {1, 2}" by auto
  have up: "[1..3::int] = [1, 2, 3]" by code_simp
  note a = get_multi_choice_spec [OF i raw1 vals1 w1, of 3,
      THEN conjunct2, THEN conjunct2, THEN conjunct1, THEN mp, OF ok1]
  note b = get_multi_choice_spec [OF i raw2 refl w1, of 3, THEN conjunct1, THEN mp, OF refl]
  note c = get_multi_choice_spec [OF i raw3 refl w1, of 3,
      THEN conjunct2, THEN conjunct1, THEN mp, OF refl]
  from a b c show ?thesis
    unfolding set12 up by (simp add: s9 s4 fresh_world_def)
qed

section \<open>Properties of the local ROM list\<close>

lemma file_at_Nil [simp]: "\<not> file_at [] q"
  by (cases "([] :: fsnode list, q)" rule: file_at.cases) auto

lemma file_at_append: "file_at (a @ b) q \<longleftrightarrow> file_at a q \<or> file_at b q"
  by (cases "(a, q)" rule: file_at.cases) auto

lemma file_at_File: "file_at [File name] q \<longleftrightarrow> q = [name]"
  by (cases "([File name], q)" rule: file_at.cases) auto

lemma file_at_Dir: "file_at [Dir name below] q \<longleftrightarrow> (\<exists>r. q = name # r \<and> file_at below r)"
  by (cases "([Dir name below], q)" rule: file_at.cases) auto

lemma file_at_length:
  "file_at entries q \<longleftrightarrow>
     (\<exists>name. q = [name] \<and> File name \<in> set entries) \<or> (2 \<le> length q \<and> file_at entries q)"
  by (cases "(entries, q)" rule: file_at.cases) auto

lemma entry_of_files:
  "(p, True) \<in> entry_of dir ` set entries \<longleftrightarrow>
     (\<exists>name. p = dir @ [name] \<and> File name \<in> set entries)"
proof
  assume "(p, True) \<in> entry_of dir ` set entries"
  then obtain node where n: "node \<in> set entries" and e: "entry_of dir node = (p, True)"
    by auto
  show "\<exists>name. p = dir @ [name] \<and> File name \<in> set entries"
  proof (cases node)
    case (File name)
    with n e show ?thesis by auto
  next
    case (Dir name below)
    with e show ?thesis by simp
  qed
next
  assume "\<exists>name. p = dir @ [name] \<and> File name \<in> set entries"
  then obtain name where "p = dir @ [name]" and "File name \<in> set entries" by blast
  then have "entry_of dir (File name) = (p, True)" and "File name \<in> set entries" by auto
  then show "(p, True) \<in> entry_of dir ` set entries" by (metis imageI)
qed

lemma rglob_deep_files:
  "(p, True) \<in> set (rglob_below dir node) \<longleftrightarrow>
     (\<exists>q. p = dir @ q \<and> 2 \<le> length q \<and> file_at [node] q)"
  "(p, True) \<in> set (rglob_dirs dir entries) \<longleftrightarrow>
     (\<exists>q. p = dir @ q \<and> 2 \<le> length q \<and> file_at entries q)"
proof (induction dir node and dir entries arbitrary: p and p
    rule: rglob_below_rglob_dirs.induct)
  case (1 dir name)
  show ?case by (auto simp: file_at_File)
next
  case (2 dir name entries)
  have "(p, True) \<in> set (rglob_below dir (Dir name entries)) \<longleftrightarrow>
          (\<exists>n. p = (dir @ [name]) @ [n] \<and> File n \<in> set entries)
          \<or> (\<exists>r. p = (dir @ [name]) @ r \<and> 2 \<le> length r \<and> file_at entries r)"
    using 2 [of p] entry_of_files [of p "dir @ [name]" entries] by simp
  also have "\<dots> \<longleftrightarrow> (\<exists>r. p = (dir @ [name]) @ r \<and> file_at entries r)"
    using file_at_length [of entries] by blast
  also have "\<dots> \<longleftrightarrow> (\<exists>q. p = dir @ q \<and> 2 \<le> length q \<and> file_at [Dir name entries] q)"
  proof
    assume "\<exists>r. p = (dir @ [name]) @ r \<and> file_at entries r"
    then obtain r where r: "p = (dir @ [name]) @ r" "file_at entries r" by blast
    then have "r \<noteq> []" by auto
    then have "2 \<le> length (name # r)" by (cases r) auto
    with r show "\<exists>q. p = dir @ q \<and> 2 \<le> length q \<and> file_at [Dir name entries] q"
      by (intro exI [of _ "name # r"]) (simp add: file_at_Dir)
  next
    assume "\<exists>q. p = dir @ q \<and> 2 \<le> length q \<and> file_at [Dir name entries] q"
    then show "\<exists>r. p = (dir @ [name]) @ r \<and> file_at entries r"
      by (auto simp: file_at_Dir)
  qed
  finally show ?case .
next
  case (3 dir)
  show ?case by simp
next
  case (4 dir node nodes)
  have "file_at (node # nodes) q \<longleftrightarrow> file_at [node] q \<or> file_at nodes q" for q
    using file_at_append [of "[node]" nodes q] by simp
  with 4 show ?case by auto
qed

lemma rglob_files:
  "(p, True) \<in> set (rglob dir entries) \<longleftrightarrow> (\<exists>q. p = dir @ q \<and> file_at entries q)"
proof -
  have "(p, True) \<in> set (rglob dir entries) \<longleftrightarrow>
          (\<exists>n. p = dir @ [n] \<and> File n \<in> set entries)
          \<or> (\<exists>q. p = dir @ q \<and> 2 \<le> length q \<and> file_at entries q)"
    using entry_of_files [of p dir entries] by (simp add: rglob_def rglob_deep_files(2))
  also have "\<dots> \<longleftrightarrow> (\<exists>q. p = dir @ q \<and> file_at entries q)"
    using file_at_length [of entries] by blast
  finally show ?thesis .
qed

lemma file_at_not_Nil: "file_at entries q \<Longrightarrow> q \<noteq> []"
  by auto

lemma path_name_append: "q \<noteq> [] \<Longrightarrow> path_name (dir @ q) = path_name q"
  by (simp add: path_name_def)

lemma file_at_path_name: "file_at entries q \<Longrightarrow> path_name (dir @ q) = path_name q"
  by (rule path_name_append) (rule file_at_not_Nil)

text \<open>
  Claim C7. \<open>list_local_roms\<close> returns exactly the files of the ROM directory tree, at
  any depth, whose extension lowercases to \<open>.z64\<close>, \<open>.n64\<close> or \<open>.v64\<close>; the list is sorted
  by lowercased file name; \<open>.txt\<close> and \<open>.sra\<close> are not ROM extensions; and when the ROM
  directory is missing the list is empty.
\<close>

theorem list_local_roms_spec:
  "(roms_tree E = None \<longrightarrow> list_local_roms E = [])
   \<and> (roms_tree E = Some entries \<longrightarrow>
        set (list_local_roms E) =
          {LOCAL_ROMS_DIR @ q | q. file_at entries q
                                  \<and> lower (suffix (path_name q)) \<in> set ROM_EXTENSIONS})
   \<and> sorted (map (\<lambda>x. lower (path_name x)) (list_local_roms E))
   \<and> lower (suffix ''readme.txt'') \<notin> set ROM_EXTENSIONS
   \<and> lower (suffix ''save.sra'') \<notin> set ROM_EXTENSIONS"
proof (intro conjI impI)
  assume "roms_tree E = None"
  then show "list_local_roms E = []" by (simp add: list_local_roms_def)
next
  assume t: "roms_tree E = Some entries"
  have "set (list_local_roms E) =
          {p. (p, True) \<in> set (rglob LOCAL_ROMS_DIR entries)
              \<and> lower (suffix (path_name p)) \<in> set ROM_EXTENSIONS}"
    using t by (force simp: list_local_roms_def is_rom_file_def)
  also have "\<dots> = {LOCAL_ROMS_DIR @ q | q. file_at entries q
                       \<and> lower (suffix (path_name q)) \<in> set ROM_EXTENSIONS}"
  proof (intro set_eqI iffI; clarsimp simp: rglob_files)
    fix q
    assume "file_at entries q"
      and "lower (suffix (path_name (LOCAL_ROMS_DIR @ q))) \<in> set ROM_EXTENSIONS"
    then show "lower (suffix (path_name q)) \<in> set ROM_EXTENSIONS"
      by (simp add: file_at_path_name [of entries q])
  next
    fix q
    assume "file_at entries q"
      and "lower (suffix (path_name q)) \<in> set ROM_EXTENSIONS"
    then show "lower (suffix (path_name (LOCAL_ROMS_DIR @ q))) \<in> set ROM_EXTENSIONS"
      by (simp add: file_at_path_name [of entries q])
  qed
  finally show "set (list_local_roms E) =
          {LOCAL_ROMS_DIR @ q | q. file_at entries q
                                  \<and> lower (suffix (path_name q)) \<in> set ROM_EXTENSIONS}" .
next
  show "sorted (map (\<lambda>x. lower (path_name x)) (list_local_roms E))"
    by (simp add: list_local_roms_def split: option.splits)
next
  show "lower (suffix ''readme.txt'') \<notin> set ROM_EXTENSIONS" by code_simp
  show "lower (suffix ''save.sra'') \<notin> set ROM_EXTENSIONS" by code_simp
qed

theorem list_local_roms_spec_witness:
  "roms_tree (roms_env (Some demo_roms) two_line_cart) = Some demo_roms
   \<and> set (list_local_roms (roms_env (Some demo_roms) two_line_cart)) =
       {LOCAL_ROMS_DIR @ q | q. file_at demo_roms q
                               \<and> lower (suffix (path_name q)) \<in> set ROM_EXTENSIONS}
   \<and> list_local_roms (roms_env (Some demo_roms) two_line_cart) =
       [[''roms'', ''kirby.n64''], [''roms'', ''sub.n64'', ''Mario.v64''],
        [''roms'', ''zelda.Z64'']]
   \<and> roms_tree (roms_env None two_line_cart) = None
   \<and> list_local_roms (roms_env None two_line_cart) = []"
proof -
  have a: "roms_tree (roms_env (Some demo_roms) two_line_cart) = Some demo_roms"
    by (simp add: roms_env_def)
  have b: "roms_tree (roms_env None two_line_cart) = None"
    by (simp add: roms_env_def)
  have c: "list_local_roms (roms_env (Some demo_roms) two_line_cart) =
       [[''roms'', ''kirby.n64''], [''roms'', ''sub.n64'', ''Mario.v64''],
        [''roms'', ''zelda.Z64'']]"
    by code_simp
  note s = list_local_roms_spec [of "roms_env (Some demo_roms) two_line_cart" demo_roms,
      THEN conjunct2, THEN conjunct1, THEN mp, OF a]
  note n = list_local_roms_spec [of "roms_env None two_line_cart" demo_roms,
      THEN conjunct1, THEN mp, OF b]
  from a b c s n show ?thesis by blast
qed

section \<open>Properties of the comparison\<close>

lemma compare_loop_filter:
  "compare_loop roms names missing on_cart =
     (missing @ [rom \<leftarrow> roms. normalize_rom_name (path_name rom) \<notin> names],
      on_cart @ [rom \<leftarrow> roms. normalize_rom_name (path_name rom) \<in> names])"
  by (induction roms arbitrary: missing on_cart) (simp_all add: Let_def)

text \<open>
  Claim C10. When there are local ROMs and the accessibility probe answers that the SD
  card cannot be read, \<open>cmd_compare\<close> returns normally, and what it returns is the whole
  list of local ROMs, which is not empty; the probe \<open>sd ls\<close> is the only request it makes
  of the deployer, so the cart is not enumerated.
\<close>

theorem cmd_compare_inaccessible:
  assumes "list_local_roms E \<noteq> []"
    and "fst (is_sd_card_accessible E w) = Inr False"
  shows "fst (cmd_compare E w) = Inr (list_local_roms E)
         \<and> calls (snd (cmd_compare E w)) = calls w @ [[''sd'', ''ls'']]"
proof -
  let ?w0 = "w\<lparr>out := out w @ [[], replicate 60 CHR ''='', ''  Compare Local vs Cart'',
                                  replicate 60 CHR ''='']\<rparr>"
  have "fst (is_sd_card_accessible E ?w0) = Inr False"
    using assms(2) is_sd_card_accessible_same_calls [of ?w0 w E] by simp
  moreover have "calls (snd (is_sd_card_accessible E ?w0)) = calls w @ [[''sd'', ''ls'']]"
    using is_sd_card_accessible_calls [of E ?w0] by simp
  ultimately obtain w1 where w1: "is_sd_card_accessible E ?w0 = (Inr False, w1)"
    and c1: "calls w1 = calls w @ [[''sd'', ''ls'']]"
    by (cases "is_sd_card_accessible E ?w0") auto
  show ?thesis
    using assms(1) w1 c1 by (simp add: cmd_compare_def prog_simps Let_def)
qed

theorem cmd_compare_inaccessible_witness:
  "list_local_roms (roms_env (Some ab_roms) missing_deployer) \<noteq> []
   \<and> fst (is_sd_card_accessible (roms_env (Some ab_roms) missing_deployer) fresh_world) = Inr False
   \<and> fst (cmd_compare (roms_env (Some ab_roms) missing_deployer) fresh_world) =
       Inr [[''roms'', ''A.z64''], [''roms'', ''B.n64'']]
   \<and> calls (snd (cmd_compare (roms_env (Some ab_roms) missing_deployer) fresh_world)) =
       [[''sd'', ''ls'']]"
proof -
  have l: "list_local_roms (roms_env (Some ab_roms) missing_deployer) =
             [[''roms'', ''A.z64''], [''roms'', ''B.n64'']]"
    by code_simp
  then have n: "list_local_roms (roms_env (Some ab_roms) missing_deployer) \<noteq> []"
    by simp
  have a: "fst (is_sd_card_accessible (roms_env (Some ab_roms) missing_deployer) fresh_world)
             = Inr False"
    by code_simp
  from cmd_compare_inaccessible [OF n a] n a show ?thesis
    by (simp add: l fresh_world_def)
qed

text \<open>
  Claim C4. When there are local ROMs, the SD card is accessible and the scan of the
  cart returns the inventory \<open>sd_roms\<close>, \<open>cmd_compare\<close> returns the local ROMs whose
  normalized name is not among the normalized names of the inventory, in their order;
  it lists the others as already on the cart, and the two lists share no ROM and
  together hold every local ROM. With \<open>A.z64\<close> and \<open>B.n64\<close> local and the normalized
  names \<open>{a}\<close> on the cart, \<open>B.n64\<close> is missing and \<open>A.z64\<close> is on the cart.
\<close>

theorem cmd_compare_partition:
  assumes "list_local_roms E \<noteq> []"
    and "is_sd_card_accessible E (snd (print_header ''Compare Local vs Cart'' w)) = (Inr True, w1)"
    and "get_all_sd_roms E (recursion_limit E) None [] (snd (print ''Scanning SD card...'' w1))
           = (Inr sd_roms, w2)"
    and "names = (\<lambda>r. normalize_rom_name (e_name r)) ` set sd_roms"
    and "missing = [rom \<leftarrow> list_local_roms E. normalize_rom_name (path_name rom) \<notin> names]"
    and "on_cart = [rom \<leftarrow> list_local_roms E. normalize_rom_name (path_name rom) \<in> names]"
  shows "fst (cmd_compare E w) = Inr missing
    \<and> out (snd (cmd_compare E w)) =
        out w2 @ [''Found '' @ str_nat (length sd_roms) @ '' ROM(s) on cart'']
        @ (if on_cart = [] then []
           else (CHR 0x0A # ''Already on cart ('' @ str_nat (length on_cart) @ ''):'')
                # map (\<lambda>rom. ''  [OK] '' @ path_name rom) on_cart)
        @ (if missing = [] then [CHR 0x0A # ''All local ROMs are already on the cart!'']
           else (CHR 0x0A # ''NOT on cart ('' @ str_nat (length missing) @ ''):'')
                # map (rom_line E) (enumerate1 missing))
    \<and> set missing \<union> set on_cart = set (list_local_roms E)
    \<and> set missing \<inter> set on_cart = {}
    \<and> compare_loop [[''roms'', ''A.z64''], [''roms'', ''B.n64'']] {''a''} [] [] =
        ([[''roms'', ''B.n64'']], [[''roms'', ''A.z64'']])"
proof -
  have acc: "is_sd_card_accessible E
               (w\<lparr>out := out w @ [[], replicate 60 CHR ''='', ''  Compare Local vs Cart'',
                                    replicate 60 CHR ''='']\<rparr>) = (Inr True, w1)"
    using assms(2) by (simp add: print_header_apply)
  have inv: "get_all_sd_roms E (recursion_limit E) None []
               (w1\<lparr>out := out w1 @ [''Scanning SD card...'']\<rparr>) = (Inr sd_roms, w2)"
    using assms(3) by (simp add: print_apply)
  have run: "cmd_compare E w =
          (Inr missing,
           w2\<lparr>out := out w2 @ [''Found '' @ str_nat (length sd_roms) @ '' ROM(s) on cart'']
        @ (if on_cart = [] then []
           else (CHR 0x0A # ''Already on cart ('' @ str_nat (length on_cart) @ ''):'')
                # map (\<lambda>rom. ''  [OK] '' @ path_name rom) on_cart)
        @ (if missing = [] then [CHR 0x0A # ''All local ROMs are already on the cart!'']
           else (CHR 0x0A # ''NOT on cart ('' @ str_nat (length missing) @ ''):'')
                # map (rom_line E) (enumerate1 missing))\<rparr>)"
    using assms(1) unfolding assms(4) assms(5) assms(6)
    by (simp add: cmd_compare_def prog_simps Let_def acc inv compare_loop_filter)
  have ex: "compare_loop [[''roms'', ''A.z64''], [''roms'', ''B.n64'']] {''a''} [] [] =
        ([[''roms'', ''B.n64'']], [[''roms'', ''A.z64'']])"
    by code_simp
  have part: "set missing \<union> set on_cart = set (list_local_roms E)"
    "set missing \<inter> set on_cart = {}"
    unfolding assms(5) assms(6) by auto
  from run ex part show ?thesis by simp
qed


theorem cmd_compare_partition_witness:
  "list_local_roms (roms_env (Some ab_roms) (demo_cart a_listing)) =
     [[''roms'', ''A.z64''], [''roms'', ''B.n64'']]
   \<and> fst (is_sd_card_accessible (roms_env (Some ab_roms) (demo_cart a_listing))
            (snd (print_header ''Compare Local vs Cart'' fresh_world))) = Inr True
   \<and> fst (get_all_sd_roms (roms_env (Some ab_roms) (demo_cart a_listing)) 1000 None []
            (snd (print ''Scanning SD card...''
               (snd (is_sd_card_accessible (roms_env (Some ab_roms) (demo_cart a_listing))
                  (snd (print_header ''Compare Local vs Cart'' fresh_world))))))) =
       Inr [\<lparr>e_name = ''a.Z64'', e_type = ''file'', e_size = ''32M'', e_path = ''/a.Z64''\<rparr>]
   \<and> fst (cmd_compare (roms_env (Some ab_roms) (demo_cart a_listing)) fresh_world) =
       Inr [[''roms'', ''B.n64'']]
   \<and> calls (snd (cmd_compare (roms_env (Some ab_roms) (demo_cart a_listing)) fresh_world)) =
       [[''sd'', ''ls''], [''sd'', ''ls''], [''sd'', ''ls'', ''/saves'']]"
proof -
  let ?E = "roms_env (Some ab_roms) (demo_cart a_listing)"
  let ?w0 = "snd (print_header ''Compare Local vs Cart'' fresh_world)"
  let ?w1 = "snd (is_sd_card_accessible ?E ?w0)"
  let ?v1 = "snd (print ''Scanning SD card...'' ?w1)"
  let ?sd = "[\<lparr>e_name = ''a.Z64'', e_type = ''file'', e_size = ''32M'', e_path = ''/a.Z64''\<rparr>]"
  have l: "list_local_roms ?E = [[''roms'', ''A.z64''], [''roms'', ''B.n64'']]"
    by code_simp
  then have n: "list_local_roms ?E \<noteq> []" by simp
  have a1: "fst (is_sd_card_accessible ?E ?w0) = Inr True" by code_simp
  then have a: "is_sd_card_accessible ?E ?w0 = (Inr True, ?w1)"
    by (metis prod.collapse)
  have r: "recursion_limit ?E = 1000" by (simp add: roms_env_def cart_env_def)
  have g1: "fst (get_all_sd_roms ?E 1000 None [] ?v1) = Inr ?sd" by code_simp
  then have g: "get_all_sd_roms ?E (recursion_limit ?E) None [] ?v1
                  = (Inr ?sd, snd (get_all_sd_roms ?E 1000 None [] ?v1))"
    unfolding r by (metis prod.collapse)
  have m: "[rom \<leftarrow> [[''roms'', ''A.z64''], [''roms'', ''B.n64'']].
             normalize_rom_name (path_name rom)
               \<notin> (\<lambda>r. normalize_rom_name (e_name r)) ` set ?sd] = [[''roms'', ''B.n64'']]"
    by code_simp
  have c: "calls (snd (cmd_compare ?E fresh_world)) =
             [[''sd'', ''ls''], [''sd'', ''ls''], [''sd'', ''ls'', ''/saves'']]"
    by code_simp
  note t = cmd_compare_partition [OF n a g refl refl refl, THEN conjunct1]
  from t have "fst (cmd_compare ?E fresh_world) = Inr [[''roms'', ''B.n64'']]"
    unfolding l m .
  with l a1 g1 c show ?thesis by simp
qed

section \<open>Properties of the upload batches\<close>

lemma run_sc64_command_reply:
  assumes "\<forall>h a e. subprocess_run E h a = Raised e \<longrightarrow> e = FileNotFoundError"
  shows "run_sc64_command E args w = (Inr (reply E (calls w) args), w\<lparr>calls := calls w @ [args]\<rparr>)"
proof (cases "subprocess_run E (calls w) args")
  case (Completed c so se)
  then show ?thesis by (simp add: run_sc64_command_def reply_def)
next
  case (Raised e)
  with assms have "e = FileNotFoundError" by blast
  with Raised show ?thesis by (simp add: run_sc64_command_def reply_def)
qed

lemma upload_rom_to_sd_apply:
  assumes "\<forall>h a e. subprocess_run E h a = Raised e \<longrightarrow> e = FileNotFoundError"
  shows "upload_rom_to_sd E rom sd_path w =
           (Inr (fst (reply E (calls w) (upload_request E sd_path rom)) = 0),
            w\<lparr>calls := calls w @ [upload_request E sd_path rom],
              out := out w @ upload_report sd_path
                               (rom, reply E (calls w) (upload_request E sd_path rom))\<rparr>)"
  unfolding upload_request_def
  by (auto simp: upload_rom_to_sd_def Let_def prog_simps upload_report_def
      run_sc64_command_reply [OF assms] split: prod.splits)

lemma py_index_selected:
  "1 \<le> idx \<Longrightarrow> idx \<le> int (length xs) \<Longrightarrow> py_index xs (idx - 1) = Some (xs ! nat (idx - 1))"
  by (simp add: py_index_def Let_def)

lemma upload_loop_apply:
  assumes "\<forall>h a e. subprocess_run E h a = Raised e \<longrightarrow> e = FileNotFoundError"
    and "\<forall>idx \<in> set choices. 1 \<le> idx \<and> idx \<le> int (length missing)"
  shows "upload_loop E missing dest_path choices n w =
    (Inr (n + length [r \<leftarrow> replies E (calls w)
                              (map (upload_request E dest_path) (selected missing choices)).
                      fst r = 0]),
     w\<lparr>calls := calls w @ map (upload_request E dest_path) (selected missing choices),
       out := out w @ concat (map (upload_report dest_path)
                (zip (selected missing choices)
                   (replies E (calls w)
                      (map (upload_request E dest_path) (selected missing choices)))))\<rparr>)"
  using assms(2)
proof (induction choices arbitrary: n w)
  case Nil
  show ?case by (simp add: selected_def ret_apply)
next
  case (Cons idx rest)
  then have i: "py_index missing (idx - 1) = Some (missing ! nat (idx - 1))"
    by (simp add: py_index_selected)
  from Cons have r: "\<forall>idx \<in> set rest. 1 \<le> idx \<and> idx \<le> int (length missing)" by simp
  show ?case
    by (simp add: i bind_apply upload_rom_to_sd_apply [OF assms(1)] Cons.IH [OF r]
        selected_def)
qed

lemma quick_upload_loop_apply:
  assumes "\<forall>h a e. subprocess_run E h a = Raised e \<longrightarrow> e = FileNotFoundError"
    and "\<forall>idx \<in> set choices. 1 \<le> idx \<and> idx \<le> int (length local_roms)"
  shows "quick_upload_loop E local_roms choices w =
    (Inr (),
     w\<lparr>calls := calls w @ map (upload_request E ''/'') (selected local_roms choices),
       out := out w @ concat (map (upload_report ''/'')
                (zip (selected local_roms choices)
                   (replies E (calls w)
                      (map (upload_request E ''/'') (selected local_roms choices)))))\<rparr>)"
  using assms(2)
proof (induction choices arbitrary: w)
  case Nil
  show ?case by (simp add: selected_def ret_apply)
next
  case (Cons idx rest)
  then have i: "py_index local_roms (idx - 1) = Some (local_roms ! nat (idx - 1))"
    by (simp add: py_index_selected)
  from Cons have r: "\<forall>idx \<in> set rest. 1 \<le> idx \<and> idx \<le> int (length local_roms)" by simp
  show ?case
    by (simp add: i bind_apply upload_rom_to_sd_apply [OF assms(1)] Cons.IH [OF r]
        selected_def)
qed

lemma choices_loop_range:
  "choices_loop max_val parts choices w = (Inr r, w') \<Longrightarrow>
   \<forall>c \<in> set choices. 1 \<le> c \<and> c \<le> max_val \<Longrightarrow> \<forall>c \<in> set r. 1 \<le> c \<and> c \<le> max_val"
proof (induction parts arbitrary: choices w)
  case Nil
  then show ?case by (simp add: ret_apply)
next
  case (Cons part parts)
  show ?case
  proof (cases "py_int (strip part)")
    case None
    with Cons.prems(1) show ?thesis by (simp add: throw_apply)
  next
    case (Some val)
    show ?thesis
    proof (cases "1 \<le> val \<and> val \<le> max_val")
      case True
      with Some Cons.prems(1)
      have "choices_loop max_val parts (choices @ [val]) w = (Inr r, w')" by simp
      moreover from True Cons.prems(2)
      have "\<forall>c \<in> set (choices @ [val]). 1 \<le> c \<and> c \<le> max_val" by simp
      ultimately show ?thesis by (rule Cons.IH)
    next
      case False
      with Some Cons.prems(1)
      have "choices_loop max_val parts choices
              (w\<lparr>out := out w @ [''Skipping invalid choice: '' @ str_int val]\<rparr>) = (Inr r, w')"
        by (simp add: seq_apply print_apply)
      then show ?thesis using Cons.prems(2) by (rule Cons.IH)
    qed
  qed
qed

lemma get_multi_choice_range:
  "get_multi_choice max_val prompt w = (Inr r, w') \<Longrightarrow> \<forall>c \<in> set r. 1 \<le> c \<and> c \<le> max_val"
proof (induction max_val prompt w rule: get_multi_choice.induct)
  case (1 max_val prompt w)
  note step = get_multi_choice.simps [of max_val prompt w]
  obtain x w1 where i: "input (prompt @ '' (e.g. 1,3,5 or 'all', or 0 to cancel): '') w = (x, w1)"
    by (cases "input (prompt @ '' (e.g. 1,3,5 or 'all', or 0 to cancel): '') w") auto
  show ?case
  proof (cases x)
    case (Inl e)
    from "1.prems" show ?thesis
      unfolding step i Inl by (simp split: if_splits)
  next
    case line: (Inr line)
    define raw where "raw = lower (strip line)"
    obtain y w2 where c: "choices_loop max_val (split_on CHR '','' raw) [] w1 = (y, w2)"
      by (cases "choices_loop max_val (split_on CHR '','' raw) [] w1") auto
    have step': "get_multi_choice max_val prompt w =
       (if raw = ''0'' then (Inr [], w1)
        else if raw = ''all'' then (Inr [1..max_val], w1)
        else case y of
               Inl e \<Rightarrow>
                 if e = ValueError
                 then get_multi_choice max_val prompt
                        (w2\<lparr>out := out w2
                              @ [''Please enter valid numbers separated by commas'']\<rparr>)
                 else (Inl e, w2)
             | Inr choices \<Rightarrow> (Inr (sorted_list_of_set (set choices)), w2))"
      unfolding step i line by (simp add: Let_def raw_def [symmetric] c)
    consider "raw = ''0''" | "raw \<noteq> ''0''" "raw = ''all''"
      | "raw \<noteq> ''0''" "raw \<noteq> ''all''" by blast
    then show ?thesis
    proof cases
      case 1
      with "1.prems" step' show ?thesis by simp
    next
      case 2
      with "1.prems" step' show ?thesis by auto
    next
      case 3
      show ?thesis
      proof (cases y)
        case (Inl e)
        show ?thesis
        proof (cases "e = ValueError")
          case True
          from "1.prems" step' 3 Inl True
          have "get_multi_choice max_val prompt
                  (w2\<lparr>out := out w2 @ [''Please enter valid numbers separated by commas'']\<rparr>)
                = (Inr r, w')"
            by simp
          moreover note "1.IH" [OF i [symmetric] line raw_def 3(1) 3(2) c [symmetric] Inl True]
          ultimately show ?thesis by blast
        next
          case False
          with "1.prems" step' 3 Inl show ?thesis by simp
        qed
      next
        case (Inr cs)
        with "1.prems" step' 3 have "r = sorted_list_of_set (set cs)" by simp
        moreover from choices_loop_range [of max_val _ "[]" w1 cs w2] c Inr
        have "\<forall>c \<in> set cs. 1 \<le> c \<and> c \<le> max_val" by simp
        ultimately show ?thesis by simp
      qed
    qed
  qed
qed




end
